theory Spec2Isabelle
  imports Main "HOL-Library.AList"
begin

section \<open>Python values, errors and the world\<close>

text \<open>
  The values that flow through \<^verbatim>\<open>agent.py\<close>: \<^verbatim>\<open>None\<close>, booleans, unbounded
  integers, strings, lists and dictionaries with string keys (keyword arguments and the
  persona data are such dictionaries). A dictionary is an association list in insertion
  order with distinct keys. \<open>PDict\<close> is a dictionary that nothing else aliases;
  \<open>PRef a\<close> is a reference to the dictionary object at address \<open>a\<close> of the store, for
  dictionaries the code copies and mutates; \<open>PObj\<close> is an opaque handle (the LLM, the
  storage). Floats are not modelled.
\<close>

datatype pyval =
    PNone
  | PBool bool
  | PInt int
  | PStr string
  | PList "pyval list"
  | PDict "(string \<times> pyval) list"
  | PRef nat
  | PObj string

type_synonym pydict = "(string \<times> pyval) list"

datatype error =
    KeyError pyval
  | IndexError
  | TypeError
  | AttributeError
  | ValueError
  | Unsupported
  | CollaboratorError string

text \<open>
  What the program does to the outside, in the order it does it: console output, log
  lines, and the calls on the storage handle and on the LLM handle with their arguments.
\<close>

datatype event =
    Cprint string
  | Log string string
  | LoadCollection pyval
  | SaveMemory pyval
  | UpdateMemory pyval
  | ClearCollection pyval
  | GenerateText pyval pydict

record world =
  events :: "event list"
  store :: "pydict list"
  uuid_count :: nat

text \<open>
  The collaborators and builtins that are not code of this module, as parameters:
  \<open>str_other\<close> is \<^verbatim>\<open>str()\<close> on lists, dictionaries and objects, \<open>parse_int\<close> is
  \<^verbatim>\<open>int()\<close> on a string, \<open>uuid4\<close> gives the text of the n-th identifier that
  \<^verbatim>\<open>uuid.uuid4()\<close> generates, and the three last fields are the answers of the
  storage and of the LLM, which may depend on the calls made so far and may be an error
  raised by the collaborator.
\<close>

record env =
  str_other :: "pydict list \<Rightarrow> pyval \<Rightarrow> string"
  parse_int :: "string \<Rightarrow> int option"
  uuid4 :: "nat \<Rightarrow> string"
  storage_load :: "event list \<Rightarrow> pyval \<Rightarrow> error + pyval"
  storage_write :: "event list \<Rightarrow> event \<Rightarrow> error option"
  llm_generate :: "event list \<Rightarrow> pyval \<Rightarrow> pydict \<Rightarrow> error + pyval"

record agent =
  class_name :: string
  agent_data :: pydict

subsection \<open>Computations that may raise and that change the world\<close>

text \<open>
  A raised exception ends the computation; the effects made before it stay in the world.
\<close>

type_synonym 'a es = "world \<Rightarrow> (error + 'a) \<times> world"

definition ret :: "'a \<Rightarrow> 'a es" where
  "ret x = (\<lambda>w. (Inr x, w))"

definition raise :: "error \<Rightarrow> 'a es" where
  "raise e = (\<lambda>w. (Inl e, w))"

definition bind :: "'a es \<Rightarrow> ('a \<Rightarrow> 'b es) \<Rightarrow> 'b es" where
  "bind m f = (\<lambda>w. case m w of (Inl e, w') \<Rightarrow> (Inl e, w') | (Inr x, w') \<Rightarrow> f x w')"

definition lift :: "(pydict list \<Rightarrow> error + 'a) \<Rightarrow> 'a es" where
  "lift f = (\<lambda>w. (f (store w), w))"

definition emit :: "event \<Rightarrow> unit es" where
  "emit ev = (\<lambda>w. (Inr (), w\<lparr>events := events w @ [ev]\<rparr>))"

fun mapM :: "('a \<Rightarrow> 'b es) \<Rightarrow> 'a list \<Rightarrow> ('b list) es" where
  "mapM f [] = ret []"
| "mapM f (x # xs) = bind (f x) (\<lambda>y. bind (mapM f xs) (\<lambda>ys. ret (y # ys)))"

fun mapE :: "('a \<Rightarrow> error + 'b) \<Rightarrow> 'a list \<Rightarrow> error + 'b list" where
  "mapE f [] = Inr []"
| "mapE f (x # xs) =
     (case f x of Inl e \<Rightarrow> Inl e
      | Inr y \<Rightarrow> (case mapE f xs of Inl e \<Rightarrow> Inl e | Inr ys \<Rightarrow> Inr (y # ys)))"

subsection \<open>Python primitives\<close>

definition deref :: "pydict list \<Rightarrow> nat \<Rightarrow> pydict option" where
  "deref st a = (if a < length st then Some (st ! a) else None)"

text \<open>The dictionary behind a value, if the value is a dictionary.\<close>

fun as_dict :: "pydict list \<Rightarrow> pyval \<Rightarrow> pydict option" where
  "as_dict st (PDict d) = Some d"
| "as_dict st (PRef a) = deref st a"
| "as_dict st _ = None"

text \<open>Truth value of an object: \<^verbatim>\<open>bool(v)\<close>.\<close>

fun py_truthy :: "pydict list \<Rightarrow> pyval \<Rightarrow> bool" where
  "py_truthy st PNone = False"
| "py_truthy st (PBool b) = b"
| "py_truthy st (PInt i) = (i \<noteq> 0)"
| "py_truthy st (PStr s) = (s \<noteq> [])"
| "py_truthy st (PList xs) = (xs \<noteq> [])"
| "py_truthy st (PDict d) = (d \<noteq> [])"
| "py_truthy st (PRef a) = (case deref st a of Some d \<Rightarrow> d \<noteq> [] | None \<Rightarrow> True)"
| "py_truthy st (PObj h) = True"

text \<open>
  \<^verbatim>\<open>xs[i]\<close> on a sequence: the positions are \<open>0\<close> to \<open>len - 1\<close>, and \<open>-1\<close> down
  to \<open>-len\<close> name the same elements from the back.
\<close>

definition seq_index :: "'a list \<Rightarrow> int \<Rightarrow> error + 'a" where
  "seq_index xs i =
     (if 0 \<le> i \<and> i < int (length xs) then Inr (xs ! nat i)
      else if i < 0 \<and> - int (length xs) \<le> i then Inr (xs ! nat (int (length xs) + i))
      else Inl IndexError)"

text \<open>
  Lookup of a key in a dictionary with string keys: a string that is not a key and any
  other hashable key raise \<^verbatim>\<open>KeyError\<close>, an unhashable key raises \<^verbatim>\<open>TypeError\<close>.
\<close>

fun dict_getitem :: "pydict \<Rightarrow> pyval \<Rightarrow> error + pyval" where
  "dict_getitem d (PStr k) = (case map_of d k of Some v \<Rightarrow> Inr v | None \<Rightarrow> Inl (KeyError (PStr k)))"
| "dict_getitem d (PList xs) = Inl TypeError"
| "dict_getitem d (PDict e) = Inl TypeError"
| "dict_getitem d (PRef a) = Inl TypeError"
| "dict_getitem d k = Inl (KeyError k)"

fun index_of :: "pyval \<Rightarrow> int option" where
  "index_of (PInt i) = Some i"
| "index_of (PBool b) = Some (if b then 1 else 0)"
| "index_of _ = None"

text \<open>Subscription \<^verbatim>\<open>v[k]\<close>.\<close>

fun py_getitem :: "pydict list \<Rightarrow> pyval \<Rightarrow> pyval \<Rightarrow> error + pyval" where
  "py_getitem st (PDict d) k = dict_getitem d k"
| "py_getitem st (PRef a) k =
     (case deref st a of Some d \<Rightarrow> dict_getitem d k | None \<Rightarrow> Inl TypeError)"
| "py_getitem st (PList xs) k =
     (case index_of k of Some i \<Rightarrow> seq_index xs i | None \<Rightarrow> Inl TypeError)"
| "py_getitem st (PStr s) k =
     (case index_of k of
        Some i \<Rightarrow> (case seq_index s i of Inl e \<Rightarrow> Inl e | Inr c \<Rightarrow> Inr (PStr [c]))
      | None \<Rightarrow> Inl TypeError)"
| "py_getitem st _ k = Inl TypeError"

text \<open>The method call \<^verbatim>\<open>v.get(k, default)\<close> with a string key.\<close>

definition py_get :: "pydict list \<Rightarrow> pyval \<Rightarrow> string \<Rightarrow> pyval \<Rightarrow> error + pyval" where
  "py_get st v k dflt =
     (case as_dict st v of
        Some d \<Rightarrow> Inr (case map_of d k of Some x \<Rightarrow> x | None \<Rightarrow> dflt)
      | None \<Rightarrow> Inl AttributeError)"

text \<open>\<^verbatim>\<open>kwargs.get(k)\<close> on a dictionary of keyword arguments.\<close>

definition kw_get :: "pydict \<Rightarrow> string \<Rightarrow> pyval" where
  "kw_get d k = (case map_of d k of Some x \<Rightarrow> x | None \<Rightarrow> PNone)"

text \<open>Whether \<open>sub\<close> occurs in \<open>s\<close> as a contiguous run: \<^verbatim>\<open>sub in s\<close> on strings.\<close>

fun substring :: "string \<Rightarrow> string \<Rightarrow> bool" where
  "substring sub [] = (sub = [])"
| "substring sub (c # cs) = (take (length sub) (c # cs) = sub \<or> substring sub cs)"

text \<open>The membership test \<^verbatim>\<open>k in v\<close> for a string \<open>k\<close>.\<close>

fun py_contains :: "pydict list \<Rightarrow> pyval \<Rightarrow> string \<Rightarrow> error + bool" where
  "py_contains st (PDict d) k = Inr (k \<in> set (map fst d))"
| "py_contains st (PRef a) k =
     (case deref st a of Some d \<Rightarrow> Inr (k \<in> set (map fst d)) | None \<Rightarrow> Inl TypeError)"
| "py_contains st (PList xs) k = Inr (PStr k \<in> set xs)"
| "py_contains st (PStr s) k = Inr (substring k s)"
| "py_contains st _ k = Inl TypeError"

text \<open>The elements a \<^verbatim>\<open>for\<close> loop over \<open>v\<close> visits.\<close>

fun py_iter :: "pydict list \<Rightarrow> pyval \<Rightarrow> error + pyval list" where
  "py_iter st (PList xs) = Inr xs"
| "py_iter st (PDict d) = Inr (map (\<lambda>p. PStr (fst p)) d)"
| "py_iter st (PRef a) =
     (case deref st a of Some d \<Rightarrow> Inr (map (\<lambda>p. PStr (fst p)) d) | None \<Rightarrow> Inl TypeError)"
| "py_iter st (PStr s) = Inr (map (\<lambda>c. PStr [c]) s)"
| "py_iter st _ = Inl TypeError"

text \<open>\<^verbatim>\<open>d.update(e)\<close>: a key already there keeps its place, a new key goes last.\<close>

definition dict_update :: "pydict \<Rightarrow> pydict \<Rightarrow> pydict" where
  "dict_update d e = fold (\<lambda>p acc. AList.update (fst p) (snd p) acc) e d"

subsection \<open>Text of a value\<close>

definition digit_char :: "nat \<Rightarrow> char" where
  "digit_char n = ''0123456789'' ! n"

fun nat_str :: "nat \<Rightarrow> string" where
  "nat_str n = (if n < 10 then [digit_char n] else nat_str (n div 10) @ [digit_char (n mod 10)])"

declare nat_str.simps [simp del]

definition int_str :: "int \<Rightarrow> string" where
  "int_str i = (if i < 0 then CHR ''-'' # nat_str (nat (- i)) else nat_str (nat i))"

text \<open>\<^verbatim>\<open>str(v)\<close>, which is also what an empty format specification produces.\<close>

fun py_str :: "env \<Rightarrow> pydict list \<Rightarrow> pyval \<Rightarrow> string" where
  "py_str E st PNone = ''None''"
| "py_str E st (PBool b) = (if b then ''True'' else ''False'')"
| "py_str E st (PInt i) = int_str i"
| "py_str E st (PStr s) = s"
| "py_str E st v = str_other E st v"

text \<open>\<^verbatim>\<open>int(v)\<close>.\<close>

fun py_int :: "env \<Rightarrow> pyval \<Rightarrow> error + int" where
  "py_int E (PInt i) = Inr i"
| "py_int E (PBool b) = Inr (if b then 1 else 0)"
| "py_int E (PStr s) = (case parse_int E s of Some i \<Rightarrow> Inr i | None \<Rightarrow> Inl ValueError)"
| "py_int E _ = Inl TypeError"

text \<open>
  \<^verbatim>\<open>s.strip()\<close>: whitespace is removed at both ends. The characters of the model are
  bytes, and the whitespace is that of ASCII.
\<close>

definition is_space :: "char \<Rightarrow> bool" where
  "is_space c = (of_char c \<in> {9, 10, 11, 12, 13, 28, 29, 30, 31, 32 :: nat})"

definition strip :: "string \<Rightarrow> string" where
  "strip s = rev (dropWhile is_space (rev (dropWhile is_space s)))"

subsection \<open>\<^verbatim>\<open>str.format\<close> with keyword arguments only\<close>

text \<open>
  The value of the replacement field named \<open>n\<close>. An empty or numeric name refers to a
  positional argument, and \<^verbatim>\<open>_render_template\<close> passes none.
\<close>

definition is_digit :: "char \<Rightarrow> bool" where
  "is_digit c = (48 \<le> (of_char c :: nat) \<and> (of_char c :: nat) \<le> 57)"

definition field_value :: "env \<Rightarrow> pydict list \<Rightarrow> pydict \<Rightarrow> string \<Rightarrow> error + string" where
  "field_value E st kw n =
     (if list_all is_digit n then (if length n > 18 then Inl Unsupported else Inl IndexError)
      else (case map_of kw n of
              None \<Rightarrow> Inl (KeyError (PStr n))
            | Some v \<Rightarrow> Inr (py_str E st v)))"

definition prepend :: "string \<Rightarrow> error + string \<Rightarrow> error + string" where
  "prepend s r = (case r of Inl e \<Rightarrow> Inl e | Inr t \<Rightarrow> Inr (s @ t))"

text \<open>
  The format string is read from left to right, and the first error met is the one
  raised. The second argument is \<open>None\<close> in literal text and \<open>Some n\<close> inside a
  replacement field whose name so far is \<open>n\<close>. Doubled braces are literal braces. A
  field with a conversion (\<^verbatim>\<open>!\<close>), a format specification (\<^verbatim>\<open>:\<close>), an attribute or
  an index is outside the modelled fragment: the result is \<open>Unsupported\<close>, which stands
  for no Python behaviour.
\<close>

fun fmt :: "env \<Rightarrow> pydict list \<Rightarrow> pydict \<Rightarrow> string option \<Rightarrow> string \<Rightarrow> error + string" where
  "fmt E st kw None [] = Inr []"
| "fmt E st kw (Some n) [] = Inl ValueError"
| "fmt E st kw None (c # cs) =
     (if c = CHR ''{'' then
        (case cs of
           [] \<Rightarrow> Inl ValueError
         | d # ds \<Rightarrow> if d = CHR ''{'' then prepend ''{'' (fmt E st kw None ds)
                     else fmt E st kw (Some []) cs)
      else if c = CHR ''}'' then
        (case cs of
           [] \<Rightarrow> Inl ValueError
         | d # ds \<Rightarrow> if d = CHR ''}'' then prepend ''}'' (fmt E st kw None ds)
                     else Inl ValueError)
      else prepend [c] (fmt E st kw None cs))"
| "fmt E st kw (Some n) (c # cs) =
     (if c = CHR ''}'' then
        (case field_value E st kw n of
           Inl e \<Rightarrow> Inl e
         | Inr s \<Rightarrow> prepend s (fmt E st kw None cs))
      else if c \<in> set ''{[.!:'' then Inl Unsupported
      else fmt E st kw (Some (n @ [c])) cs)"

definition py_format :: "env \<Rightarrow> pydict list \<Rightarrow> string \<Rightarrow> pydict \<Rightarrow> error + string" where
  "py_format E st t kw = fmt E st kw None t"

section \<open>The module's functions\<close>

text \<open>
  The keys of the mapping that \<^verbatim>\<open>_load_agent_data\<close> builds:
  \<^verbatim>\<open>heuristic_imperatives\<close> when the persona data have them, the others always.
\<close>

definition agent_data_keys :: "string list" where
  "agent_data_keys =
     [''name'', ''llm'', ''objective'', ''prompts'', ''params'', ''storage'',
      ''heuristic_imperatives'']"

definition calculate_next_task_order :: "env \<Rightarrow> pyval \<Rightarrow> error + pyval" where
  "calculate_next_task_order E this_task_order =
     (case py_int E this_task_order of Inl e \<Rightarrow> Inl e | Inr i \<Rightarrow> Inr (PInt (i + 1)))"

text \<open>A loader returns a dictionary, or \<open>None\<close> for Python's \<^verbatim>\<open>None\<close>.\<close>

definition get_data ::
  "string \<Rightarrow> (pydict option) es \<Rightarrow> pydict \<Rightarrow> pydict \<Rightarrow> bool \<Rightarrow> pydict es" where
  "get_data key loader kwargs data invert_logic =
     (if (key \<notin> set (map fst kwargs) \<and> \<not> invert_logic) \<or> (key \<in> set (map fst kwargs) \<and> invert_logic)
      then bind loader (\<lambda>db_data.
             case db_data of
               Some d \<Rightarrow> ret (dict_update data d)
             | None \<Rightarrow> ret data)
      else ret data)"

definition handle_prompt_type :: "pydict list \<Rightarrow> pyval \<Rightarrow> string \<Rightarrow> error + (pyval \<times> pyval) list" where
  "handle_prompt_type st prompts prompt_type =
     (case py_get st prompts prompt_type (PDict []) of
        Inl e \<Rightarrow> Inl e
      | Inr prompt_data \<Rightarrow>
          if py_truthy st prompt_data then
            (case py_getitem st prompt_data (PStr ''template'') of
               Inl e \<Rightarrow> Inl e
             | Inr t \<Rightarrow> (case py_getitem st prompt_data (PStr ''vars'') of
                           Inl e \<Rightarrow> Inl e
                         | Inr v \<Rightarrow> Inr [(t, v)]))
          else Inr [])"

text \<open>
  \<^verbatim>\<open>d.pop(k)\<close> changes the dictionary object in place, so the dictionary has to be in
  the store; popping from a \<open>PDict\<close> is outside the model.
\<close>

definition py_pop :: "pyval \<Rightarrow> string \<Rightarrow> unit es" where
  "py_pop v k = (\<lambda>w.
     case v of
       PRef a \<Rightarrow>
         (case deref (store w) a of
            Some d \<Rightarrow>
              if k \<in> set (map fst d)
              then (Inr (), w\<lparr>store := (store w)[a := AList.delete k d]\<rparr>)
              else (Inl (KeyError (PStr k)), w)
          | None \<Rightarrow> (Inl AttributeError, w))
     | PDict d \<Rightarrow> (Inl Unsupported, w)
     | _ \<Rightarrow> (Inl AttributeError, w))"

definition remove_prompt_if_none :: "pyval \<Rightarrow> pydict \<Rightarrow> string \<Rightarrow> string \<Rightarrow> unit es" where
  "remove_prompt_if_none prompts kwargs prompt_type kwarg_key =
     bind (lift (\<lambda>st. py_get st prompts prompt_type PNone)) (\<lambda>p w.
       if py_truthy (store w) p \<and> kw_get kwargs kwarg_key = PNone
       then py_pop prompts prompt_type w
       else ret () w)"

text \<open>The items of \<open>data\<close> whose key is \<^verbatim>\<open>in variables\<close>, in the order of \<open>data\<close>.\<close>

fun select_items :: "pydict list \<Rightarrow> pyval \<Rightarrow> pydict \<Rightarrow> error + pydict" where
  "select_items st variables [] = Inr []"
| "select_items st variables (p # ps) =
     (case py_contains st variables (fst p) of
        Inl e \<Rightarrow> Inl e
      | Inr b \<Rightarrow> (case select_items st variables ps of
                    Inl e \<Rightarrow> Inl e
                  | Inr qs \<Rightarrow> Inr (if b then p # qs else qs)))"

definition render_template :: "env \<Rightarrow> pydict list \<Rightarrow> pyval \<Rightarrow> pyval \<Rightarrow> pydict \<Rightarrow> error + string" where
  "render_template E st template variables data =
     (case template of
        PStr t \<Rightarrow>
          (case select_items st variables data of
             Inl e \<Rightarrow> Inl e
           | Inr kw \<Rightarrow> py_format E st t kw)
      | _ \<Rightarrow> Inl AttributeError)"

definition show_task :: "env \<Rightarrow> pydict \<Rightarrow> unit es" where
  "show_task E data = (\<lambda>w.
     case map_of data ''task'' of
       Some v \<Rightarrow> emit (Cprint ([CHR 0x0A] @ ''Task: '' @ py_str E (store w) v)) w
     | None \<Rightarrow> ret () w)"

definition set_task_order :: "env \<Rightarrow> pydict \<Rightarrow> error + pydict" where
  "set_task_order E data =
     (let task_order = kw_get data ''this_task_order'' in
      if task_order \<noteq> PNone then
        (case calculate_next_task_order E task_order of
           Inl e \<Rightarrow> Inl e
         | Inr v \<Rightarrow> Inr (AList.update ''next_task_order'' v data))
      else Inr data)"

section \<open>The methods of \<^verbatim>\<open>Agent\<close>\<close>

text \<open>A call that writes to the storage: the call is made, and the storage may raise.\<close>

definition storage_call :: "env \<Rightarrow> event \<Rightarrow> unit es" where
  "storage_call E ev = (\<lambda>w.
     ((case storage_write E (events w) ev of None \<Rightarrow> Inr () | Some e \<Rightarrow> Inl e),
      w\<lparr>events := events w @ [ev]\<rparr>))"

text \<open>\<^verbatim>\<open>str(uuid.uuid4())\<close>: the next identifier of the supply.\<close>

definition fresh_uuid :: "env \<Rightarrow> string es" where
  "fresh_uuid E = (\<lambda>w. (Inr (uuid4 E (uuid_count w)), w\<lparr>uuid_count := Suc (uuid_count w)\<rparr>))"

text \<open>
  \<^verbatim>\<open>x.copy()\<close>: the copy of a dictionary is a new object of the store with the same
  items; lists are values.
\<close>

definition py_copy :: "pyval \<Rightarrow> pyval es" where
  "py_copy v = (\<lambda>w.
     case v of
       PList xs \<Rightarrow> (Inr (PList xs), w)
     | _ \<Rightarrow> (case as_dict (store w) v of
              Some d \<Rightarrow> (Inr (PRef (length (store w))), w\<lparr>store := store w @ [d]\<rparr>)
            | None \<Rightarrow> (Inl AttributeError, w)))"

fun handle_all :: "pydict list \<Rightarrow> pyval \<Rightarrow> string list \<Rightarrow> error + (pyval \<times> pyval) list" where
  "handle_all st prompts [] = Inr []"
| "handle_all st prompts (prompt_type # rest) =
     (case handle_prompt_type st prompts prompt_type of
        Inl e \<Rightarrow> Inl e
      | Inr ts \<Rightarrow> (case handle_all st prompts rest of
                    Inl e \<Rightarrow> Inl e
                  | Inr us \<Rightarrow> Inr (ts @ us)))"

definition generate_prompt :: "env \<Rightarrow> agent \<Rightarrow> pydict \<Rightarrow> (string list) es" where
  "generate_prompt E self kwargs =
     bind (lift (\<lambda>st. dict_getitem (agent_data self) (PStr ''prompts''))) (\<lambda>persona_prompts.
     bind (py_copy persona_prompts) (\<lambda>prompts.
     bind (lift (\<lambda>st. py_getitem st prompts (PStr ''SystemPrompt''))) (\<lambda>system_prompt.
     bind (lift (\<lambda>st. py_getitem st system_prompt (PStr ''template''))) (\<lambda>t.
     bind (lift (\<lambda>st. py_getitem st system_prompt (PStr ''vars''))) (\<lambda>v.
     bind (remove_prompt_if_none prompts kwargs ''ContextPrompt'' ''context'') (\<lambda>_.
     bind (remove_prompt_if_none prompts kwargs ''FeedbackPrompt'' ''feedback'') (\<lambda>_.
     bind (lift (\<lambda>st. handle_all st prompts [''ContextPrompt'', ''FeedbackPrompt'', ''InstructionPrompt''])) (\<lambda>rest.
     bind (lift (\<lambda>st. mapE (\<lambda>tv. render_template E st (fst tv) (snd tv) kwargs) ((t, v) # rest))) (\<lambda>rendered.
     bind (\<lambda>w. emit (Log (''Prompt:'' @ [CHR 0x0A] @ py_str E (store w) (PList (map PStr rendered))) ''debug'') w) (\<lambda>_.
     ret rendered))))))))))"

definition get_task_list :: "env \<Rightarrow> agent \<Rightarrow> pyval es" where
  "get_task_list E self = (\<lambda>w.
     let params = PDict [(''collection_name'', PStr ''Tasks''),
                         (''include'', PList [PStr ''documents'', PStr ''metadatas''])]
     in (storage_load E (events w) params, w\<lparr>events := events w @ [LoadCollection params]\<rparr>))"

definition load_current_task :: "env \<Rightarrow> agent \<Rightarrow> (pydict option) es" where
  "load_current_task E self =
     bind (get_task_list E self) (\<lambda>task_list.
     bind (lift (\<lambda>st. py_getitem st task_list (PStr ''documents''))) (\<lambda>documents.
     bind (lift (\<lambda>st. py_getitem st documents (PInt 0))) (\<lambda>task.
     ret (Some [(''task'', task)]))))"

text \<open>\<^verbatim>\<open>kwargs.get(k) or {}\<close>.\<close>

definition get_or_empty :: "pydict list \<Rightarrow> pydict \<Rightarrow> string \<Rightarrow> pyval" where
  "get_or_empty st kwargs k = (if py_truthy st (kw_get kwargs k) then kw_get kwargs k else PDict [])"

definition load_and_process_data :: "env \<Rightarrow> agent \<Rightarrow> pydict \<Rightarrow> pydict es" where
  "load_and_process_data E self kwargs =
     bind (lift (\<lambda>st. py_get st (get_or_empty st kwargs ''context'') ''result'' PNone)) (\<lambda>context.
     bind (lift (\<lambda>st. py_get st (get_or_empty st kwargs ''task_result'') ''result'' PNone)) (\<lambda>task_result.
     bind (ret (dict_update (dict_update [] (agent_data self)) kwargs)) (\<lambda>data.
     bind (get_data ''task'' (load_current_task E self) kwargs data False) (\<lambda>data.
     bind (get_data ''task_result'' (ret (Some [(''result'', task_result)])) kwargs data True) (\<lambda>data.
     bind (ret (dict_update data [(''context'', context)])) (\<lambda>data.
     bind (lift (\<lambda>st. set_task_order E data)) (\<lambda>data.
     bind (show_task E data) (\<lambda>_.
     ret data))))))))"

definition parse_output :: "pyval \<Rightarrow> pyval \<Rightarrow> pydict \<Rightarrow> pyval" where
  "parse_output result bot_id data = PDict [(''result'', result)]"

definition run_llm :: "env \<Rightarrow> agent \<Rightarrow> pyval \<Rightarrow> pyval es" where
  "run_llm E self prompt =
     bind (lift (\<lambda>st. dict_getitem (agent_data self) (PStr ''llm''))) (\<lambda>model.
     bind (ret (case map_of (agent_data self) ''params'' of Some p \<Rightarrow> p | None \<Rightarrow> PDict [])) (\<lambda>params.
     bind (case model of PObj h \<Rightarrow> ret () | _ \<Rightarrow> raise AttributeError) (\<lambda>_.
     bind (lift (\<lambda>st. case as_dict st params of Some d \<Rightarrow> Inr d | None \<Rightarrow> Inl TypeError)) (\<lambda>options.
     bind (\<lambda>w. (llm_generate E (events w) prompt options,
                 w\<lparr>events := events w @ [GenerateText prompt options]\<rparr>)) (\<lambda>text.
     case text of PStr s \<Rightarrow> ret (PStr (strip s)) | _ \<Rightarrow> raise AttributeError)))))"

definition save_results :: "env \<Rightarrow> agent \<Rightarrow> pyval \<Rightarrow> unit es" where
  "save_results E self result =
     storage_call E (SaveMemory (PDict [(''data'', PList [result]),
                                        (''collection_name'', PStr ''Results'')]))"

definition save_status :: "env \<Rightarrow> agent \<Rightarrow> pyval \<Rightarrow> pyval \<Rightarrow> pyval \<Rightarrow> pyval \<Rightarrow> unit es" where
  "save_status E self status task_id text task_order =
     bind (\<lambda>w. emit (Log ([CHR 0x0A] @ ''Save Task: '' @ py_str E (store w) text
                          @ [CHR 0x0A] @ ''Save ID: '' @ py_str E (store w) task_id
                          @ [CHR 0x0A] @ ''Save Order: '' @ py_str E (store w) task_order
                          @ [CHR 0x0A] @ ''Save Status: '' @ py_str E (store w) status)
                     ''debug'') w) (\<lambda>_.
     storage_call E (UpdateMemory (PDict
       [(''collection_name'', PStr ''Tasks''),
        (''ids'', PList [task_id]),
        (''data'', PList [text]),
        (''metadata'', PList [PDict [(''Status'', status),
                                     (''Description'', text),
                                     (''Order'', task_order)]])])))"

definition task_metadata :: "env \<Rightarrow> pyval \<Rightarrow> pyval es" where
  "task_metadata E task =
     bind (lift (\<lambda>st. py_getitem st task (PStr ''Description''))) (\<lambda>description.
     bind (fresh_uuid E) (\<lambda>list_id.
     bind (lift (\<lambda>st. py_getitem st task (PStr ''Order''))) (\<lambda>order.
     ret (PDict [(''Status'', PStr ''not completed''),
                 (''Description'', description),
                 (''List_ID'', PStr list_id),
                 (''Order'', order)]))))"

definition save_tasks :: "env \<Rightarrow> agent \<Rightarrow> pyval \<Rightarrow> pyval \<Rightarrow> unit es" where
  "save_tasks E self ordered_results task_desc_list =
     bind (storage_call E (ClearCollection (PStr ''Tasks''))) (\<lambda>_.
     bind (lift (\<lambda>st. py_iter st ordered_results)) (\<lambda>tasks.
     bind (mapM (task_metadata E) tasks) (\<lambda>metadatas.
     bind (lift (\<lambda>st. mapE (\<lambda>task. py_getitem st task (PStr ''Order'')) tasks)) (\<lambda>task_orders.
     bind (\<lambda>w. ret (map (\<lambda>order. PStr (py_str E (store w) order)) task_orders) w) (\<lambda>ids.
     storage_call E (SaveMemory (PDict
       [(''collection_name'', PStr ''Tasks''),
        (''ids'', PList ids),
        (''data'', task_desc_list),
        (''metadata'', PList metadatas)])))))))"

text \<open>
  The table \<^verbatim>\<open>save_operations\<close> of \<^verbatim>\<open>save_parsed_data\<close>: for each key, in the order
  of the dictionary display, the function that saves and the function that selects the
  output.
\<close>

definition save_operations ::
  "env \<Rightarrow> agent \<Rightarrow> pyval \<Rightarrow> (string \<times> (pyval \<Rightarrow> unit es) \<times> (pydict list \<Rightarrow> pyval \<Rightarrow> error + pyval)) list" where
  "save_operations E self parsed_data =
     [(''result'', save_results E self, (\<lambda>st data. Inr data)),
      (''Tasks'',
         (\<lambda>tasks.
            bind (lift (\<lambda>st. case py_iter st tasks of
                                Inl e \<Rightarrow> Inl e
                              | Inr ts \<Rightarrow> mapE (\<lambda>task. py_getitem st task (PStr ''Description'')) ts)) (\<lambda>descs.
            save_tasks E self tasks (PList descs))),
         (\<lambda>st data. py_getitem st data (PStr ''Tasks''))),
      (''status'',
         (\<lambda>status.
            bind (lift (\<lambda>st. case py_getitem st parsed_data (PStr ''task'') of
                                Inl e \<Rightarrow> Inl e | Inr t \<Rightarrow> py_getitem st t (PStr ''task_id''))) (\<lambda>task_id.
            bind (lift (\<lambda>st. case py_getitem st parsed_data (PStr ''task'') of
                                Inl e \<Rightarrow> Inl e | Inr t \<Rightarrow> py_getitem st t (PStr ''description''))) (\<lambda>description.
            bind (lift (\<lambda>st. case py_getitem st parsed_data (PStr ''task'') of
                                Inl e \<Rightarrow> Inl e | Inr t \<Rightarrow> py_getitem st t (PStr ''order''))) (\<lambda>order.
            save_status E self status task_id description order)))),
         (\<lambda>st data. Inr data))]"

fun save_loop ::
  "(string \<times> (pyval \<Rightarrow> unit es) \<times> (pydict list \<Rightarrow> pyval \<Rightarrow> error + pyval)) list
     \<Rightarrow> pyval \<Rightarrow> pyval \<Rightarrow> pyval es" where
  "save_loop [] parsed_data output = ret output"
| "save_loop ((key, save_function, data_selector) # rest) parsed_data output =
     bind (lift (\<lambda>st. py_contains st parsed_data key)) (\<lambda>present.
       if present then
         bind (lift (\<lambda>st. py_getitem st parsed_data (PStr key))) (\<lambda>v.
         bind (save_function v) (\<lambda>_.
         bind (lift (\<lambda>st. data_selector st parsed_data)) (\<lambda>output'.
         save_loop rest parsed_data output')))
       else save_loop rest parsed_data output)"

definition save_parsed_data :: "env \<Rightarrow> agent \<Rightarrow> pyval \<Rightarrow> pyval es" where
  "save_parsed_data E self parsed_data =
     save_loop (save_operations E self parsed_data) parsed_data PNone"

definition run :: "env \<Rightarrow> agent \<Rightarrow> pyval \<Rightarrow> pydict \<Rightarrow> pyval es" where
  "run E self bot_id kwargs =
     bind (emit (Cprint ([CHR 0x0A] @ class_name self @ '' - Running Agent...''))) (\<lambda>_.
     bind (load_and_process_data E self kwargs) (\<lambda>data.
     bind (generate_prompt E self data) (\<lambda>prompts.
     bind (run_llm E self (PList (map PStr prompts))) (\<lambda>result.
     bind (ret (parse_output result bot_id data)) (\<lambda>parsed_data.
     bind (save_parsed_data E self parsed_data) (\<lambda>output.
     bind (emit (Cprint ([CHR 0x0A] @ class_name self @ '' - Agent Done...'' @ [CHR 0x0A]))) (\<lambda>_.
     ret output)))))))"

section \<open>Task records\<close>

text \<open>
  A task record is a mapping with the fields \<^verbatim>\<open>Description\<close> and \<^verbatim>\<open>Order\<close>;
  \<open>expected_metadata\<close> is the metadata the specification asks \<^verbatim>\<open>save_tasks\<close> to
  store for a task, given the identifier generated for it.
\<close>

definition task_field :: "pyval \<Rightarrow> string \<Rightarrow> pyval" where
  "task_field task k = (case task of PDict d \<Rightarrow> kw_get d k | _ \<Rightarrow> PNone)"

definition task_record :: "pyval \<Rightarrow> bool" where
  "task_record task =
     (case task of
        PDict d \<Rightarrow> ''Description'' \<in> set (map fst d) \<and> ''Order'' \<in> set (map fst d)
      | _ \<Rightarrow> False)"

definition expected_metadata :: "pyval \<Rightarrow> string \<Rightarrow> pyval" where
  "expected_metadata task list_id =
     PDict [(''Status'', PStr ''not completed''),
            (''Description'', task_field task ''Description''),
            (''List_ID'', PStr list_id),
            (''Order'', task_field task ''Order'')]"

section \<open>What the persistence branches do\<close>

text \<open>
  The storage calls and log lines of each branch of \<^verbatim>\<open>save_parsed_data\<close>, started in
  the world \<open>w\<close>, as the specification describes them; the output that is selected when
  all branches have run; and the inputs on which the branches can run: the value under
  \<^verbatim>\<open>Tasks\<close> is a list of task records, and with \<^verbatim>\<open>status\<close> comes a \<^verbatim>\<open>task\<close>
  sub-object with the fields \<^verbatim>\<open>task_id\<close>, \<^verbatim>\<open>description\<close> and \<^verbatim>\<open>order\<close>.
\<close>

definition results_events :: "pyval \<Rightarrow> event list" where
  "results_events result =
     [SaveMemory (PDict [(''data'', PList [result]), (''collection_name'', PStr ''Results'')])]"

definition tasks_events :: "env \<Rightarrow> world \<Rightarrow> pyval list \<Rightarrow> pyval \<Rightarrow> event list" where
  "tasks_events E w tasks descriptions =
     [ClearCollection (PStr ''Tasks''),
      SaveMemory (PDict
        [(''collection_name'', PStr ''Tasks''),
         (''ids'', PList (map (\<lambda>t. PStr (py_str E (store w) (task_field t ''Order''))) tasks)),
         (''data'', descriptions),
         (''metadata'', PList (map2 expected_metadata tasks
             (map (uuid4 E) [uuid_count w ..< uuid_count w + length tasks])))])]"

definition status_events :: "env \<Rightarrow> world \<Rightarrow> pyval \<Rightarrow> pyval \<Rightarrow> event list" where
  "status_events E w status task =
     [Log ([CHR 0x0A] @ ''Save Task: '' @ py_str E (store w) (task_field task ''description'')
           @ [CHR 0x0A] @ ''Save ID: '' @ py_str E (store w) (task_field task ''task_id'')
           @ [CHR 0x0A] @ ''Save Order: '' @ py_str E (store w) (task_field task ''order'')
           @ [CHR 0x0A] @ ''Save Status: '' @ py_str E (store w) status)
          ''debug'',
      UpdateMemory (PDict
        [(''collection_name'', PStr ''Tasks''),
         (''ids'', PList [task_field task ''task_id'']),
         (''data'', PList [task_field task ''description'']),
         (''metadata'', PList [PDict [(''Status'', status),
                                      (''Description'', task_field task ''description''),
                                      (''Order'', task_field task ''order'')]])])]"

definition task_list :: "pydict \<Rightarrow> pyval list" where
  "task_list d = (case map_of d ''Tasks'' of Some (PList tasks) \<Rightarrow> tasks | _ \<Rightarrow> [])"

definition persistence_events :: "env \<Rightarrow> world \<Rightarrow> pydict \<Rightarrow> event list" where
  "persistence_events E w d =
     (case map_of d ''result'' of None \<Rightarrow> [] | Some r \<Rightarrow> results_events r)
     @ (case map_of d ''Tasks'' of
          None \<Rightarrow> []
        | Some ts \<Rightarrow> tasks_events E w (task_list d)
                      (PList (map (\<lambda>t. task_field t ''Description'') (task_list d))))
     @ (case map_of d ''status'' of
          None \<Rightarrow> []
        | Some s \<Rightarrow> status_events E w s (kw_get d ''task''))"

definition selected_output :: "pydict \<Rightarrow> pyval" where
  "selected_output d =
     (if ''status'' \<in> set (map fst d) then PDict d
      else if ''Tasks'' \<in> set (map fst d) then kw_get d ''Tasks''
      else if ''result'' \<in> set (map fst d) then PDict d
      else PNone)"

definition task_object :: "pyval \<Rightarrow> bool" where
  "task_object task =
     (case task of
        PDict t \<Rightarrow> ''task_id'' \<in> set (map fst t) \<and> ''description'' \<in> set (map fst t)
                    \<and> ''order'' \<in> set (map fst t)
      | _ \<Rightarrow> False)"

definition branch_inputs :: "pydict \<Rightarrow> bool" where
  "branch_inputs d =
     ((case map_of d ''Tasks'' of
         None \<Rightarrow> True
       | Some ts \<Rightarrow> (case ts of PList tasks \<Rightarrow> list_all task_record tasks | _ \<Rightarrow> False))
      \<and> (case map_of d ''status'' of
            None \<Rightarrow> True
          | Some s \<Rightarrow> (case map_of d ''task'' of Some task \<Rightarrow> task_object task | None \<Rightarrow> False)))"

section \<open>Templates with named fields\<close>





section \<open>The parts of a prompt\<close>

text \<open>
  The rendering of one entry of the persona's prompts, and the contribution of an
  optional prompt type as the specification words it: nothing when the persona does not
  define the type (or defines it empty) or when the caller did not supply the value the
  type asks for, and otherwise the rendering of the entry. A \<open>plain\<close> value is not a
  reference into the store.
\<close>

definition plain :: "pyval \<Rightarrow> bool" where
  "plain v = (case v of PRef a \<Rightarrow> False | _ \<Rightarrow> True)"

definition render_entry :: "env \<Rightarrow> pydict list \<Rightarrow> pydict \<Rightarrow> pyval \<Rightarrow> error + string" where
  "render_entry E st kwargs entry =
     (case py_getitem st entry (PStr ''template'') of
        Inl e \<Rightarrow> Inl e
      | Inr t \<Rightarrow> (case py_getitem st entry (PStr ''vars'') of
                    Inl e \<Rightarrow> Inl e
                  | Inr v \<Rightarrow> render_template E st t v kwargs))"

definition optional_prompt ::
  "env \<Rightarrow> pydict list \<Rightarrow> pydict \<Rightarrow> pydict \<Rightarrow> string \<Rightarrow> bool \<Rightarrow> error + string list" where
  "optional_prompt E st kwargs pd prompt_type supplied =
     (case map_of pd prompt_type of
        None \<Rightarrow> Inr []
      | Some entry \<Rightarrow>
          if py_truthy st entry \<and> supplied
          then (case render_entry E st kwargs entry of Inl e \<Rightarrow> Inl e | Inr s \<Rightarrow> Inr [s])
          else Inr [])"

section \<open>Invariants of computations\<close>

text \<open>
  \<open>keeps I m Q\<close>: from a world where \<open>I\<close> holds, the computation \<open>m\<close> ends, with a
  result or with an error, in a world where \<open>I\<close> holds, and a result satisfies \<open>Q\<close>.
  \<open>store_keeps S\<close>: the objects \<open>S\<close>, those of the store at some earlier moment, are
  still in the store, at their addresses and with their items. \<open>fresh_for S v\<close>: the
  value \<open>v\<close> does not refer to one of the objects \<open>S\<close>.
\<close>

definition keeps :: "(world \<Rightarrow> bool) \<Rightarrow> 'a es \<Rightarrow> ('a \<Rightarrow> bool) \<Rightarrow> bool" where
  "keeps I m Q = (\<forall>w r w'. I w \<longrightarrow> m w = (r, w') \<longrightarrow> I w' \<and> (\<forall>x. r = Inr x \<longrightarrow> Q x))"

definition store_keeps :: "pydict list \<Rightarrow> world \<Rightarrow> bool" where
  "store_keeps S w = (take (length S) (store w) = S)"

definition fresh_for :: "pydict list \<Rightarrow> pyval \<Rightarrow> bool" where
  "fresh_for S v = (case v of PRef a \<Rightarrow> length S \<le> a | _ \<Rightarrow> True)"

section \<open>A stub environment\<close>

text \<open>
  Collaborators for concrete runs: a storage whose collections are empty and that accepts
  every write, an LLM that answers \<^verbatim>\<open>42\<close>, and a supply of pairwise different
  identifiers.
\<close>

definition stub_env :: env where
  "stub_env =
     \<lparr>str_other = (\<lambda>st v. ''<object>''),
      parse_int = (\<lambda>s. None),
      uuid4 = (\<lambda>n. ''id-'' @ replicate n (CHR ''x'')),
      storage_load = (\<lambda>h params. Inr (PDict [(''documents'', PList []), (''metadatas'', PList [])])),
      storage_write = (\<lambda>h ev. None),
      llm_generate = (\<lambda>h prompt options. Inr (PStr ''42''))\<rparr>"

definition empty_world :: world where
  "empty_world = \<lparr>events = [], store = [], uuid_count = 0\<rparr>"

definition stub_agent :: agent where
  "stub_agent =
     \<lparr>class_name = ''Agent'',
      agent_data =
        [(''name'', PStr ''Agent''),
         (''llm'', PObj ''llm''),
         (''objective'', PStr ''Answer''),
         (''prompts'', PDict
            [(''SystemPrompt'', PDict [(''template'', PStr ''You are {name}.''),
                                       (''vars'', PList [PStr ''name''])]),
             (''ContextPrompt'', PDict [(''template'', PStr ''Context: {context}''),
                                        (''vars'', PList [PStr ''context''])]),
             (''InstructionPrompt'', PDict [(''template'', PStr ''Do: {task}''),
                                            (''vars'', PList [PStr ''task''])])]),
         (''params'', PDict []),
         (''storage'', PObj ''storage'')]\<rparr>"

text \<open>
  An agent whose prompts are a dictionary object of the store, at address 0, as the
  persona data of a running agent are.
\<close>

definition shared_world :: world where
  "shared_world =
     \<lparr>events = [],
      store = [[(''SystemPrompt'', PDict [(''template'', PStr ''You are {name}.''),
                                          (''vars'', PList [PStr ''name''])]),
                (''ContextPrompt'', PDict [(''template'', PStr ''Context: {context}''),
                                           (''vars'', PList [PStr ''context''])]),
                (''InstructionPrompt'', PDict [(''template'', PStr ''Do: {task}''),
                                               (''vars'', PList [PStr ''task''])])]],
      uuid_count = 0\<rparr>"

definition shared_agent :: agent where
  "shared_agent =
     \<lparr>class_name = ''Agent'',
      agent_data = [(''name'', PStr ''Agent''), (''llm'', PObj ''llm''),
                    (''prompts'', PRef 0), (''params'', PDict []),
                    (''storage'', PObj ''storage'')]\<rparr>"

section \<open>Basic facts\<close>

lemma bind_Inr_elim:
  assumes "bind m f w = (Inr y, w')"
  obtains x w1 where "m w = (Inr x, w1)" and "f x w1 = (Inr y, w')"
  using assms by (auto simp: bind_def split: prod.splits sum.splits)

lemma ret_eq: "ret x w = (r, w') \<longleftrightarrow> r = Inr x \<and> w' = w"
  by (auto simp: ret_def)

lemma bind_ret [simp]: "bind (ret x) f = f x"
  by (simp add: bind_def ret_def)

lemma map_of_dict_update:
  "distinct (map fst e) \<Longrightarrow> map_of (dict_update d e) = map_of d ++ map_of e"
proof (induction e arbitrary: d)
  case Nil
  then show ?case by (simp add: dict_update_def)
next
  case (Cons p ps)
  obtain k v where p: "p = (k, v)" by (cases p)
  from Cons.prems p have k: "k \<notin> fst ` set ps" and d: "distinct (map fst ps)" by auto
  have "map_of (dict_update d (p # ps)) = map_of (dict_update (AList.update k v d) ps)"
    by (simp add: dict_update_def p)
  also have "\<dots> = (map_of d)(k \<mapsto> v) ++ map_of ps"
    using Cons.IH [OF d, of "AList.update k v d"] by (simp only: AList.update_conv')
  also have "\<dots> = map_of d ++ map_of (p # ps)"
  proof (rule ext)
    fix x
    from k have "map_of ps k = None" by (simp add: map_of_eq_None_iff)
    then show "((map_of d)(k \<mapsto> v) ++ map_of ps) x = (map_of d ++ map_of (p # ps)) x"
      by (auto simp: map_add_def p split: option.splits)
  qed
  finally show ?case .
qed

section \<open>Output parsing\<close>

text \<open>
  Claim C8. The base \<^verbatim>\<open>parse_output\<close> returns exactly the mapping with the single key
  \<^verbatim>\<open>result\<close> bound to the raw output, whatever the bot identifier and the run context
  are: two calls that differ only in these two arguments return the same mapping.
\<close>

theorem parse_output_default:
  "parse_output result bot_id data = PDict [(''result'', result)]
   \<and> parse_output result bot_id data = parse_output result bot_id' data'"
  by (simp add: parse_output_def)

section \<open>Persistence\<close>

text \<open>
  Claim C9. When the parsed-data mapping has none of the keys \<^verbatim>\<open>result\<close>,
  \<^verbatim>\<open>Tasks\<close> and \<^verbatim>\<open>status\<close>, \<^verbatim>\<open>save_parsed_data\<close> returns \<^verbatim>\<open>None\<close> and leaves the
  world as it was: no call reaches the storage.
\<close>

theorem save_parsed_data_no_key:
  assumes "''result'' \<notin> set (map fst d)"
    and "''Tasks'' \<notin> set (map fst d)"
    and "''status'' \<notin> set (map fst d)"
  shows "save_parsed_data E self (PDict d) w = (Inr PNone, w)"
  using assms by (simp add: save_parsed_data_def save_operations_def bind_def lift_def ret_def)

theorem save_parsed_data_no_key_witness:
  "save_parsed_data stub_env stub_agent (PDict [(''note'', PStr ''x'')]) empty_world
     = (Inr PNone, empty_world)"
  using save_parsed_data_no_key [of "[(''note'', PStr ''x'')]" stub_env stub_agent empty_world]
  by simp

section \<open>Data loading\<close>

lemma map_of_dict_update_single:
  "map_of (dict_update d [(k, v)]) = (map_of d)(k \<mapsto> v)"
  by (simp only: dict_update_def fold.simps fst_conv snd_conv o_apply id_apply AList.update_conv')

lemma get_data_cases:
  assumes "get_data key (ret (Some [(k, v)])) kwargs data il w = (Inr data', w')"
  shows "data' = data \<or> data' = dict_update data [(k, v)]"
  using assms by (auto simp: get_data_def ret_def bind_def split: if_splits)

lemma load_current_task_shape:
  assumes "load_current_task E self w = (Inr r, w')"
  shows "\<exists>v. r = Some [(''task'', v)]"
  using assms unfolding load_current_task_def
  by (auto elim!: bind_Inr_elim simp: ret_def)

lemma get_data_task_cases:
  assumes "get_data ''task'' (load_current_task E self) kwargs data False w = (Inr data', w')"
  shows "data' = data \<and> ''task'' \<in> set (map fst kwargs)
       \<or> (\<exists>v. data' = dict_update data [(''task'', v)] \<and> ''task'' \<notin> set (map fst kwargs))"
  using assms unfolding get_data_def
  by (auto split: if_splits elim!: bind_Inr_elim dest!: load_current_task_shape simp: ret_def)

lemma set_task_order_cases:
  assumes "set_task_order E d = Inr data"
  shows "(kw_get d ''this_task_order'' = PNone \<and> data = d)
       \<or> (\<exists>i. py_int E (kw_get d ''this_task_order'') = Inr i
              \<and> data = AList.update ''next_task_order'' (PInt (i + 1)) d)"
  using assms
  by (auto simp: set_task_order_def calculate_next_task_order_def Let_def split: if_splits sum.splits)

lemma lapd_shape:
  assumes "load_and_process_data E self kwargs w = (Inr data, w')"
  shows "\<exists>d. set_task_order E d = Inr data
           \<and> (\<forall>k. k \<notin> {''task'', ''result'', ''context''} \<longrightarrow>
                  map_of d k = map_of (dict_update (dict_update [] (agent_data self)) kwargs) k)
           \<and> (''task'' \<in> set (map fst kwargs) \<longrightarrow>
                  map_of d ''task'' = map_of (dict_update (dict_update [] (agent_data self)) kwargs) ''task'')"
proof -
  let ?ov = "dict_update (dict_update [] (agent_data self)) kwargs"
  from assms obtain ctx task_result d1 d2 w1 w2 w3 where
    g1: "get_data ''task'' (load_current_task E self) kwargs ?ov False w1 = (Inr d1, w2)" and
    g2: "get_data ''task_result'' (ret (Some [(''result'', task_result)])) kwargs d1 True w2 = (Inr d2, w3)" and
    s: "set_task_order E (dict_update d2 [(''context'', ctx)]) = Inr data"
    unfolding load_and_process_data_def
    by (auto elim!: bind_Inr_elim simp: lift_def ret_eq)
  from get_data_task_cases [OF g1] have m1:
    "(\<forall>k. k \<noteq> ''task'' \<longrightarrow> map_of d1 k = map_of ?ov k)
     \<and> (''task'' \<in> set (map fst kwargs) \<longrightarrow> map_of d1 ''task'' = map_of ?ov ''task'')"
    by (auto simp: map_of_dict_update_single)
  from get_data_cases [OF g2] have m2: "\<forall>k. k \<noteq> ''result'' \<longrightarrow> map_of d2 k = map_of d1 k"
    by (auto simp: map_of_dict_update_single)
  show ?thesis
    apply (rule exI [of _ "dict_update d2 [(''context'', ctx)]"])
    using s m1 m2 by (simp add: map_of_dict_update_single)
qed

lemma map_of_overlay:
  assumes "distinct (map fst ad)" "distinct (map fst kw)"
  shows "map_of (dict_update (dict_update [] ad) kw) = map_of ad ++ map_of kw"
  using assms by (simp add: map_of_dict_update)

lemmas lapd_eval =
  load_and_process_data_def bind_def lift_def ret_def get_data_def py_get_def get_or_empty_def
  kw_get_def dict_update_def stub_env_def stub_agent_def empty_world_def set_task_order_def
  show_task_def emit_def calculate_next_task_order_def


text \<open>
  Claim C5. Whenever \<^verbatim>\<open>load_and_process_data\<close> returns a mapping: if the caller
  supplied the integer \<open>N\<close> as \<^verbatim>\<open>this_task_order\<close>, the mapping binds
  \<^verbatim>\<open>next_task_order\<close> to \<open>N + 1\<close>; and if \<^verbatim>\<open>this_task_order\<close> is absent or
  \<^verbatim>\<open>None\<close>, no \<^verbatim>\<open>next_task_order\<close> is derived: the key is bound exactly as the
  agent data overlaid with the keyword arguments binds it (not at all, unless one of the
  two supplied it). Both mappings are dictionaries: their keys are distinct.
\<close>

theorem next_task_order_derived:
  assumes "distinct (map fst (agent_data self))" and "distinct (map fst kwargs)"
    and "load_and_process_data E self kwargs w = (Inr data, w')"
  shows "(map_of kwargs ''this_task_order'' = Some (PInt N)
            \<longrightarrow> map_of data ''next_task_order'' = Some (PInt (N + 1)))
       \<and> ((map_of (agent_data self) ++ map_of kwargs) ''this_task_order'' \<in> {None, Some PNone}
            \<longrightarrow> map_of data ''next_task_order''
                  = (map_of (agent_data self) ++ map_of kwargs) ''next_task_order'')"
proof -
  let ?ov = "map_of (agent_data self) ++ map_of kwargs"
  from lapd_shape [OF assms(3)] obtain d where
    s: "set_task_order E d = Inr data" and
    m: "\<forall>k. k \<notin> {''task'', ''result'', ''context''} \<longrightarrow> map_of d k = ?ov k"
    by (auto simp: map_of_overlay [OF assms(1,2)])
  from m have t: "map_of d ''this_task_order'' = ?ov ''this_task_order''"
    and n: "map_of d ''next_task_order'' = ?ov ''next_task_order''" by simp_all
  show ?thesis
  proof (intro conjI impI)
    assume "map_of kwargs ''this_task_order'' = Some (PInt N)"
    with t have "map_of d ''this_task_order'' = Some (PInt N)" by (simp add: map_add_def)
    with s show "map_of data ''next_task_order'' = Some (PInt (N + 1))"
      by (auto simp: set_task_order_def kw_get_def calculate_next_task_order_def update_conv')
  next
    assume "?ov ''this_task_order'' \<in> {None, Some PNone}"
    with t have "kw_get d ''this_task_order'' = PNone" by (auto simp: kw_get_def map_add_def)
    with s have "data = d" by (simp add: set_task_order_def)
    with n show "map_of data ''next_task_order'' = ?ov ''next_task_order''" by simp
  qed
qed

theorem next_task_order_derived_witness:
  "(\<exists>data w'. load_and_process_data stub_env stub_agent
       [(''task'', PStr ''Write docs''), (''this_task_order'', PInt 3)] empty_world = (Inr data, w')
      \<and> map_of data ''next_task_order'' = Some (PInt 4))
   \<and> (\<exists>data w'. load_and_process_data stub_env stub_agent
       [(''task'', PStr ''Write docs'')] empty_world = (Inr data, w')
      \<and> map_of data ''next_task_order'' = None)"
proof -
  let ?k1 = "[(''task'', PStr ''Write docs''), (''this_task_order'', PInt 3)]"
  let ?k2 = "[(''task'', PStr ''Write docs'')]"
  have da: "distinct (map fst (agent_data stub_agent))" by (simp add: stub_agent_def)
  obtain d1 w1 where r1: "load_and_process_data stub_env stub_agent ?k1 empty_world = (Inr d1, w1)"
    by (simp add: lapd_eval)
  obtain d2 w2 where r2: "load_and_process_data stub_env stub_agent ?k2 empty_world = (Inr d2, w2)"
    by (simp add: lapd_eval)
  have "map_of d1 ''next_task_order'' = Some (PInt 4)"
    using next_task_order_derived [OF da _ r1, of 3] by simp
  moreover have "map_of d2 ''next_task_order'' = None"
    using next_task_order_derived [OF da _ r2, of 0] by (simp add: stub_agent_def)
  ultimately show ?thesis using r1 r2 by simp
qed


text \<open>
  Claim C6. The run context starts from the agent data overlaid with the keyword
  arguments of the caller: whenever \<^verbatim>\<open>load_and_process_data\<close> returns a mapping, it
  agrees with that overlay on every key other than the derived fields \<^verbatim>\<open>task\<close>,
  \<^verbatim>\<open>result\<close>, \<^verbatim>\<open>context\<close> and \<^verbatim>\<open>next_task_order\<close>, which the later steps set;
  a key the caller supplied carries the caller's value, whatever the agent data binds
  it to (\<^verbatim>\<open>task\<close> included; \<^verbatim>\<open>result\<close>, \<^verbatim>\<open>context\<close> and
  \<^verbatim>\<open>next_task_order\<close> are recomputed from the caller's arguments); so, the agent
  data having the keys that \<^verbatim>\<open>_load_agent_data\<close> gives it, on every key present in
  both the value of the caller wins.
\<close>

theorem run_context_overlay:
  assumes "distinct (map fst (agent_data self))" and "distinct (map fst kwargs)"
    and "load_and_process_data E self kwargs w = (Inr data, w')"
  shows "(\<forall>k. k \<notin> {''task'', ''result'', ''context'', ''next_task_order''}
            \<longrightarrow> map_of data k = (map_of (agent_data self) ++ map_of kwargs) k)
       \<and> (\<forall>k v. map_of kwargs k = Some v \<longrightarrow> k \<notin> {''result'', ''context'', ''next_task_order''}
            \<longrightarrow> map_of data k = Some v)
       \<and> (set (map fst (agent_data self)) \<subseteq> set agent_data_keys
            \<longrightarrow> (\<forall>k v. k \<in> set (map fst (agent_data self)) \<longrightarrow> map_of kwargs k = Some v
                  \<longrightarrow> map_of data k = Some v))"
proof -
  let ?ov = "map_of (agent_data self) ++ map_of kwargs"
  from lapd_shape [OF assms(3)] obtain d where
    s: "set_task_order E d = Inr data" and
    m: "\<forall>k. k \<notin> {''task'', ''result'', ''context''} \<longrightarrow> map_of d k = ?ov k" and
    t: "''task'' \<in> set (map fst kwargs) \<longrightarrow> map_of d ''task'' = ?ov ''task''"
    by (auto simp: map_of_overlay [OF assms(1,2)])
  from set_task_order_cases [OF s] have
    dd: "\<forall>k. k \<noteq> ''next_task_order'' \<longrightarrow> map_of data k = map_of d k"
    by (auto simp: update_conv')
  have overlay: "\<forall>k. k \<notin> {''task'', ''result'', ''context'', ''next_task_order''}
                  \<longrightarrow> map_of data k = ?ov k"
    using dd m by simp
  have caller: "map_of data k = Some v"
    if kv: "map_of kwargs k = Some v" and nk: "k \<notin> {''result'', ''context'', ''next_task_order''}"
    for k v
  proof -
    from kv have ov: "?ov k = Some v" by (simp add: map_add_def)
    from kv have "k \<in> set (map fst kwargs)" by (metis map_of_eq_None_iff option.distinct(1) set_map)
    with t m nk have "map_of d k = ?ov k" by (cases "k = ''task''") auto
    with dd nk ov show ?thesis by simp
  qed
  have built: "map_of data k = Some v"
    if sub: "set (map fst (agent_data self)) \<subseteq> set agent_data_keys"
      and k: "k \<in> set (map fst (agent_data self))" and kv: "map_of kwargs k = Some v"
    for k v
  proof -
    from sub k have "k \<in> set agent_data_keys" by blast
    then have "k \<noteq> ''result''" and "k \<noteq> ''context''" and "k \<noteq> ''next_task_order''"
      unfolding agent_data_keys_def by auto
    then have "k \<notin> {''result'', ''context'', ''next_task_order''}" by simp
    with kv show ?thesis by (rule caller)
  qed
  show ?thesis
  proof (intro conjI allI impI)
    fix k assume "k \<notin> {''task'', ''result'', ''context'', ''next_task_order''}"
    with overlay show "map_of data k = ?ov k" by simp
  next
    fix k v assume "map_of kwargs k = Some v" "k \<notin> {''result'', ''context'', ''next_task_order''}"
    then show "map_of data k = Some v" by (rule caller)
  next
    fix k v
    assume "set (map fst (agent_data self)) \<subseteq> set agent_data_keys"
      "k \<in> set (map fst (agent_data self))" "map_of kwargs k = Some v"
    then show "map_of data k = Some v" by (rule built)
  qed
qed


theorem run_context_overlay_witness:
  "\<exists>data w'. load_and_process_data stub_env stub_agent
       [(''task'', PStr ''Write docs''), (''name'', PStr ''Scribe'')] empty_world = (Inr data, w')
     \<and> map_of data ''name'' = Some (PStr ''Scribe'')
     \<and> map_of data ''objective'' = Some (PStr ''Answer'')
     \<and> set (map fst (agent_data stub_agent)) \<subseteq> set agent_data_keys"
proof -
  let ?k = "[(''task'', PStr ''Write docs''), (''name'', PStr ''Scribe'')]"
  have da: "distinct (map fst (agent_data stub_agent))" by (simp add: stub_agent_def)
  obtain d w where r: "load_and_process_data stub_env stub_agent ?k empty_world = (Inr d, w)"
    by (simp add: lapd_eval)
  from run_context_overlay [OF da _ r]
  have "map_of d ''name'' = Some (PStr ''Scribe'')" and "map_of d ''objective'' = Some (PStr ''Answer'')"
    by (simp_all add: stub_agent_def)
  moreover have "set (map fst (agent_data stub_agent)) \<subseteq> set agent_data_keys"
    by (simp add: stub_agent_def agent_data_keys_def)
  ultimately show ?thesis using r by simp
qed

section \<open>A run without a task\<close>

lemma py_get_none_or_dict:
  assumes "kw_get kwargs k = PNone \<or> (\<exists>d. kw_get kwargs k = PDict d)"
  shows "\<exists>v. py_get st (get_or_empty st kwargs k) ''result'' PNone = Inr v"
  using assms by (auto simp: py_get_def get_or_empty_def)

lemma load_current_task_empty:
  assumes "storage_load E (events w)
             (PDict [(''collection_name'', PStr ''Tasks''),
                     (''include'', PList [PStr ''documents'', PStr ''metadatas''])]) = r"
    and "(\<exists>e. r = Inl e) \<or> (\<exists>d. r = Inr (PDict d) \<and> map_of d ''documents'' = Some (PList []))"
  shows "load_current_task E self w =
           (Inl (case r of Inl e \<Rightarrow> e | Inr payload \<Rightarrow> IndexError),
            w\<lparr>events := events w @
               [LoadCollection (PDict [(''collection_name'', PStr ''Tasks''),
                     (''include'', PList [PStr ''documents'', PStr ''metadatas''])])]\<rparr>)"
  using assms
  by (auto simp: load_current_task_def get_task_list_def bind_def lift_def Let_def seq_index_def)

lemma lapd_without_task:
  assumes "''task'' \<notin> set (map fst kwargs)"
    and "load_current_task E self w = (Inl err, w')"
  shows "(\<exists>e. load_and_process_data E self kwargs w = (Inl e, w))
       \<or> load_and_process_data E self kwargs w = (Inl err, w')"
proof (cases "py_get (store w) (get_or_empty (store w) kwargs ''context'') ''result'' PNone")
  case (Inl e)
  then show ?thesis by (simp add: load_and_process_data_def bind_def lift_def)
next
  case c: (Inr cv)
  show ?thesis
  proof (cases "py_get (store w) (get_or_empty (store w) kwargs ''task_result'') ''result'' PNone")
    case (Inl e)
    with c show ?thesis by (simp add: load_and_process_data_def bind_def lift_def)
  next
    case (Inr tv)
    with c assms show ?thesis
      by (simp add: load_and_process_data_def bind_def lift_def get_data_def ret_def)
  qed
qed

lemma lapd_without_task_exact:
  assumes "''task'' \<notin> set (map fst kwargs)"
    and "load_current_task E self w = (Inl err, w')"
    and "kw_get kwargs ''context'' = PNone \<or> (\<exists>d. kw_get kwargs ''context'' = PDict d)"
    and "kw_get kwargs ''task_result'' = PNone \<or> (\<exists>d. kw_get kwargs ''task_result'' = PDict d)"
  shows "load_and_process_data E self kwargs w = (Inl err, w')"
proof -
  obtain cv where cv: "py_get (store w) (get_or_empty (store w) kwargs ''context'') ''result'' PNone = Inr cv"
    using py_get_none_or_dict [OF assms(3)] by blast
  obtain tv where tv: "py_get (store w) (get_or_empty (store w) kwargs ''task_result'') ''result'' PNone = Inr tv"
    using py_get_none_or_dict [OF assms(4)] by blast
  show ?thesis
    unfolding load_and_process_data_def
    using cv tv assms(1,2)
    by (simp add: bind_def lift_def get_data_def ret_def)
qed

text \<open>
  Claim C7. Let the caller supply no \<^verbatim>\<open>task\<close>, and let the load of the
  \<^verbatim>\<open>Tasks\<close> collection either raise or answer with an empty list of documents. Then
  \<^verbatim>\<open>run\<close> fails, and the events of the run contain no call of the LLM's
  \<^verbatim>\<open>generate_text\<close>. When moreover \<^verbatim>\<open>context\<close> and \<^verbatim>\<open>task_result\<close> are, as the
  caller is to supply them, absent, \<^verbatim>\<open>None\<close> or mappings, the error is the one of the
  load (the storage's own error, or the index error of taking document 0 of none), and
  the only events of the run are the start banner and the load of the collection.
\<close>

theorem run_without_task_fails_before_llm:
  assumes no_task: "''task'' \<notin> set (map fst kwargs)"
    and load: "storage_load E
                 (events w @ [Cprint ([CHR 0x0A] @ class_name self @ '' - Running Agent...'')])
                 (PDict [(''collection_name'', PStr ''Tasks''),
                         (''include'', PList [PStr ''documents'', PStr ''metadatas''])]) = r"
    and empty: "(\<exists>e. r = Inl e) \<or> (\<exists>d. r = Inr (PDict d) \<and> map_of d ''documents'' = Some (PList []))"
  shows "(\<exists>err evs. run E self bot_id kwargs w = (Inl err, w\<lparr>events := events w @ evs\<rparr>)
            \<and> (\<forall>prompt options. GenerateText prompt options \<notin> set evs))
       \<and> ((kw_get kwargs ''context'' = PNone \<or> (\<exists>d. kw_get kwargs ''context'' = PDict d))
          \<and> (kw_get kwargs ''task_result'' = PNone \<or> (\<exists>d. kw_get kwargs ''task_result'' = PDict d))
          \<longrightarrow> run E self bot_id kwargs w =
               (Inl (case r of Inl e \<Rightarrow> e | Inr payload \<Rightarrow> IndexError),
                w\<lparr>events := events w @
                   [Cprint ([CHR 0x0A] @ class_name self @ '' - Running Agent...''),
                    LoadCollection (PDict [(''collection_name'', PStr ''Tasks''),
                         (''include'', PList [PStr ''documents'', PStr ''metadatas''])])]\<rparr>))"
proof -
  let ?c = "Cprint ([CHR 0x0A] @ class_name self @ '' - Running Agent...'')"
  let ?q = "PDict [(''collection_name'', PStr ''Tasks''),
                   (''include'', PList [PStr ''documents'', PStr ''metadatas''])]"
  let ?w1 = "w\<lparr>events := events w @ [?c]\<rparr>"
  let ?err = "case r of Inl e \<Rightarrow> e | Inr payload \<Rightarrow> IndexError"
  have lct: "load_current_task E self ?w1 = (Inl ?err, ?w1\<lparr>events := events ?w1 @ [LoadCollection ?q]\<rparr>)"
    using load empty by (intro load_current_task_empty) simp_all
  have run_eq: "\<And>e w2. load_and_process_data E self kwargs ?w1 = (Inl e, w2)
                  \<Longrightarrow> run E self bot_id kwargs w = (Inl e, w2)"
    by (simp add: run_def bind_def emit_def)
  show ?thesis
  proof (intro conjI impI)
    from lapd_without_task [OF no_task lct]
    show "\<exists>err evs. run E self bot_id kwargs w = (Inl err, w\<lparr>events := events w @ evs\<rparr>)
            \<and> (\<forall>prompt options. GenerateText prompt options \<notin> set evs)"
    proof
      assume "\<exists>e. load_and_process_data E self kwargs ?w1 = (Inl e, ?w1)"
      then obtain e where "run E self bot_id kwargs w = (Inl e, w\<lparr>events := events w @ [?c]\<rparr>)"
        using run_eq by blast
      then show ?thesis by (intro exI [of _ e] exI [of _ "[?c]"]) simp
    next
      assume "load_and_process_data E self kwargs ?w1
                = (Inl ?err, ?w1\<lparr>events := events ?w1 @ [LoadCollection ?q]\<rparr>)"
      then have "run E self bot_id kwargs w
                = (Inl ?err, w\<lparr>events := events w @ [?c, LoadCollection ?q]\<rparr>)"
        using run_eq by simp
      then show ?thesis by (intro exI [of _ ?err] exI [of _ "[?c, LoadCollection ?q]"]) simp
    qed
  next
    assume "(kw_get kwargs ''context'' = PNone \<or> (\<exists>d. kw_get kwargs ''context'' = PDict d))
          \<and> (kw_get kwargs ''task_result'' = PNone \<or> (\<exists>d. kw_get kwargs ''task_result'' = PDict d))"
    then have "load_and_process_data E self kwargs ?w1
                = (Inl ?err, ?w1\<lparr>events := events ?w1 @ [LoadCollection ?q]\<rparr>)"
      using lapd_without_task_exact [OF no_task lct] by blast
    then show "run E self bot_id kwargs w
                = (Inl ?err, w\<lparr>events := events w @ [?c, LoadCollection ?q]\<rparr>)"
      using run_eq by simp
  qed
qed

theorem run_without_task_fails_before_llm_witness:
  "run stub_env stub_agent PNone [] empty_world =
     (Inl IndexError,
      empty_world\<lparr>events :=
         [Cprint ([CHR 0x0A] @ ''Agent'' @ '' - Running Agent...''),
          LoadCollection (PDict [(''collection_name'', PStr ''Tasks''),
                         (''include'', PList [PStr ''documents'', PStr ''metadatas''])])]\<rparr>)"
  using run_without_task_fails_before_llm [of "[]" stub_env empty_world stub_agent
          "Inr (PDict [(''documents'', PList []), (''metadatas'', PList [])])" PNone]
  by (simp add: stub_env_def stub_agent_def empty_world_def kw_get_def)

section \<open>Saving tasks\<close>

lemma task_record_getitem:
  assumes "task_record t" and "k = ''Description'' \<or> k = ''Order''"
  shows "py_getitem st t (PStr k) = Inr (task_field t k)"
proof -
  from assms(1) obtain d where d: "t = PDict d"
    and "''Description'' \<in> fst ` set d" and "''Order'' \<in> fst ` set d"
    by (auto simp: task_record_def split: pyval.splits)
  with assms(2) have "k \<in> fst ` set d" by auto
  then obtain v where "map_of d k = Some v"
    by (metis map_of_eq_None_iff not_Some_eq)
  with d show ?thesis by (simp add: task_field_def kw_get_def)
qed

lemma task_metadata_ok:
  assumes "task_record t"
  shows "task_metadata E t w =
           (Inr (expected_metadata t (uuid4 E (uuid_count w))), w\<lparr>uuid_count := Suc (uuid_count w)\<rparr>)"
  using task_record_getitem [OF assms]
  by (simp add: task_metadata_def bind_def lift_def fresh_uuid_def ret_def expected_metadata_def)

lemma mapM_task_metadata:
  assumes "list_all task_record tasks"
  shows "mapM (task_metadata E) tasks w =
           (Inr (map2 expected_metadata tasks
                   (map (uuid4 E) [uuid_count w ..< uuid_count w + length tasks])),
            w\<lparr>uuid_count := uuid_count w + length tasks\<rparr>)"
  using assms
proof (induction tasks arbitrary: w)
  case Nil
  then show ?case by (simp add: ret_def)
next
  case (Cons t ts)
  then have t: "task_record t" and ts: "list_all task_record ts" by simp_all
  have u: "[uuid_count w ..< uuid_count w + length (t # ts)]
             = uuid_count w # [Suc (uuid_count w) ..< Suc (uuid_count w) + length ts]"
    using upt_conv_Cons [of "uuid_count w" "uuid_count w + length (t # ts)"] by simp
  show ?case
    unfolding u
    by (simp add: bind_def task_metadata_ok [OF t] Cons.IH [OF ts] ret_def)
qed

lemma mapE_orders:
  assumes "list_all task_record tasks"
  shows "mapE (\<lambda>task. py_getitem st task (PStr k)) tasks
           = (if k = ''Description'' \<or> k = ''Order''
              then Inr (map (\<lambda>t. task_field t k) tasks)
              else mapE (\<lambda>task. py_getitem st task (PStr k)) tasks)"
  using assms by (induction tasks) (auto simp: task_record_getitem)

lemma save_tasks_run:
  assumes recs: "list_all task_record tasks"
    and writes: "\<forall>h ev. storage_write E h ev = None"
  shows "save_tasks E self (PList tasks) task_desc_list w =
           (Inr (),
            w\<lparr>events := events w @ tasks_events E w tasks task_desc_list,
               uuid_count := uuid_count w + length tasks\<rparr>)"
proof -
  let ?w1 = "w\<lparr>events := events w @ [ClearCollection (PStr ''Tasks'')]\<rparr>"
  have c: "storage_call E (ClearCollection (PStr ''Tasks'')) w = (Inr (), ?w1)"
    using writes by (simp add: storage_call_def)
  have m: "mapM (task_metadata E) tasks ?w1 =
           (Inr (map2 expected_metadata tasks
                   (map (uuid4 E) [uuid_count w ..< uuid_count w + length tasks])),
            ?w1\<lparr>uuid_count := uuid_count w + length tasks\<rparr>)"
    using mapM_task_metadata [OF recs, of E ?w1] by simp
  have o: "\<And>st. mapE (\<lambda>task. py_getitem st task (PStr ''Order'')) tasks
           = Inr (map (\<lambda>t. task_field t ''Order'') tasks)"
    using mapE_orders [OF recs, of _ "''Order''"] by simp
  show ?thesis
    unfolding save_tasks_def tasks_events_def
    using writes
    by (simp add: bind_def c m o lift_def ret_def storage_call_def comp_def)
qed

text \<open>
  Claim C4. For every list of task records, on a storage that accepts the writes,
  \<^verbatim>\<open>save_tasks\<close> makes exactly two storage calls, in this order: it clears the
  collection \<^verbatim>\<open>Tasks\<close>, then saves into it one record per task, with \<^verbatim>\<open>ids\<close> the
  texts of the tasks' orders, \<^verbatim>\<open>data\<close> the list of descriptions it was given, and as
  metadata of each task the status \<^verbatim>\<open>not completed\<close>, the task's description and
  order, and as \<^verbatim>\<open>List_ID\<close> the next identifier of the supply, which no earlier and
  no later call receives; the identifiers of one call are pairwise different when the
  supply does not repeat itself there.
\<close>

theorem save_tasks_clear_then_save:
  assumes recs: "list_all task_record tasks"
    and writes: "\<forall>h ev. storage_write E h ev = None"
  shows "save_tasks E self (PList tasks) task_desc_list w =
           (Inr (),
            w\<lparr>events := events w @
                 [ClearCollection (PStr ''Tasks''),
                  SaveMemory (PDict
                    [(''collection_name'', PStr ''Tasks''),
                     (''ids'', PList (map (\<lambda>t. PStr (py_str E (store w) (task_field t ''Order''))) tasks)),
                     (''data'', task_desc_list),
                     (''metadata'', PList (map2 expected_metadata tasks
                         (map (uuid4 E) [uuid_count w ..< uuid_count w + length tasks])))])],
               uuid_count := uuid_count w + length tasks\<rparr>)
       \<and> (inj_on (uuid4 E) {uuid_count w ..< uuid_count w + length tasks}
            \<longrightarrow> distinct (map (uuid4 E) [uuid_count w ..< uuid_count w + length tasks]))"
  using save_tasks_run [OF recs writes, of self task_desc_list w]
  by (simp add: tasks_events_def distinct_map)

theorem save_tasks_clear_then_save_witness:
  "save_tasks stub_env stub_agent
      (PList [PDict [(''Description'', PStr ''A''), (''Order'', PInt 1)],
              PDict [(''Description'', PStr ''B''), (''Order'', PInt 2)]])
      (PList [PStr ''A'', PStr ''B'']) empty_world =
     (Inr (),
      \<lparr>events =
         [ClearCollection (PStr ''Tasks''),
          SaveMemory (PDict
            [(''collection_name'', PStr ''Tasks''),
             (''ids'', PList [PStr ''1'', PStr ''2'']),
             (''data'', PList [PStr ''A'', PStr ''B'']),
             (''metadata'', PList
                [PDict [(''Status'', PStr ''not completed''), (''Description'', PStr ''A''),
                        (''List_ID'', PStr ''id-''), (''Order'', PInt 1)],
                 PDict [(''Status'', PStr ''not completed''), (''Description'', PStr ''B''),
                        (''List_ID'', PStr ''id-x''), (''Order'', PInt 2)]])])],
       store = [], uuid_count = 2\<rparr>)
   \<and> distinct [''id-'', ''id-x'']"
proof -
  have i: "inj_on (uuid4 stub_env) {0 ..< 2}"
    by (auto simp: inj_on_def stub_env_def)
  have u: "[0 ..< 2] = [0, Suc 0]" by (simp add: upt_rec)
  show ?thesis
    using i u save_tasks_clear_then_save [of
        "[PDict [(''Description'', PStr ''A''), (''Order'', PInt 1)],
          PDict [(''Description'', PStr ''B''), (''Order'', PInt 2)]]"
        stub_env stub_agent "PList [PStr ''A'', PStr ''B'']" empty_world]
    by (simp add: task_record_def stub_env_def empty_world_def expected_metadata_def
          task_field_def kw_get_def int_str_def nat_str.simps digit_char_def)
qed

section \<open>Prompt generation and the stored prompts\<close>

lemma keeps_bind:
  assumes "keeps I m Q" and "\<And>x. Q x \<Longrightarrow> keeps I (f x) Q'"
  shows "keeps I (bind m f) Q'"
  unfolding keeps_def
proof (intro allI impI)
  fix w r w' assume i: "I w" and b: "bind m f w = (r, w')"
  obtain r1 w1 where m: "m w = (r1, w1)" by (cases "m w")
  from assms(1) i m have i1: "I w1" and q: "\<forall>x. r1 = Inr x \<longrightarrow> Q x"
    unfolding keeps_def by blast+
  show "I w' \<and> (\<forall>x. r = Inr x \<longrightarrow> Q' x)"
  proof (cases r1)
    case (Inl e)
    with b m i1 show ?thesis by (auto simp: bind_def)
  next
    case (Inr x)
    with b m have "f x w1 = (r, w')" by (simp add: bind_def)
    moreover from q Inr have "Q x" by simp
    ultimately show ?thesis using assms(2) i1 unfolding keeps_def by blast
  qed
qed

lemma keeps_ret: "keeps I (ret x) (\<lambda>_. True)"
  by (simp add: keeps_def ret_def)

lemma keeps_lift: "keeps I (lift f) (\<lambda>_. True)"
  by (simp add: keeps_def lift_def)

lemma keeps_log: "keeps (store_keeps S) (\<lambda>w. emit (g w) w) (\<lambda>_. True)"
  by (simp add: keeps_def emit_def store_keeps_def)

lemma store_keeps_length:
  assumes "store_keeps S w"
  shows "length S \<le> length (store w)"
proof -
  from assms have "length (take (length S) (store w)) = length S"
    by (simp only: store_keeps_def)
  then show ?thesis by simp
qed

lemma py_copy_cases:
  assumes "py_copy v w = (r, w')"
  shows "(w' = w \<and> (\<forall>x. r = Inr x \<longrightarrow> (\<forall>a. x \<noteq> PRef a)))
       \<or> (\<exists>d. r = Inr (PRef (length (store w))) \<and> w' = w\<lparr>store := store w @ [d]\<rparr>)"
  using assms by (cases v) (auto simp: py_copy_def split: option.splits)

lemma keeps_py_copy: "keeps (store_keeps S) (py_copy v) (fresh_for S)"
  unfolding keeps_def
proof (intro allI impI)
  fix w r w' assume i: "store_keeps S w" and c: "py_copy v w = (r, w')"
  note len = store_keeps_length [OF i]
  from py_copy_cases [OF c]
  show "store_keeps S w' \<and> (\<forall>x. r = Inr x \<longrightarrow> fresh_for S x)"
  proof
    assume a: "w' = w \<and> (\<forall>x. r = Inr x \<longrightarrow> (\<forall>a. x \<noteq> PRef a))"
    have "\<And>x. \<forall>a. x \<noteq> PRef a \<Longrightarrow> fresh_for S x"
      by (simp add: fresh_for_def split: pyval.splits)
    with a i show ?thesis by blast
  next
    assume "\<exists>d. r = Inr (PRef (length (store w))) \<and> w' = w\<lparr>store := store w @ [d]\<rparr>"
    then obtain d where r: "r = Inr (PRef (length (store w)))"
      and w': "w' = w\<lparr>store := store w @ [d]\<rparr>" by blast
    from i len w' have "store_keeps S w'" by (simp add: store_keeps_def)
    moreover from len r have "\<forall>x. r = Inr x \<longrightarrow> fresh_for S x" by (simp add: fresh_for_def)
    ultimately show ?thesis by simp
  qed
qed


lemma py_pop_cases:
  assumes "py_pop v k w = (r, w')"
  shows "w' = w \<or> (\<exists>a d. v = PRef a \<and> w' = w\<lparr>store := (store w)[a := d]\<rparr>)"
  using assms by (cases v) (auto simp: py_pop_def split: option.splits if_splits)

lemma keeps_py_pop:
  assumes "fresh_for S v"
  shows "keeps (store_keeps S) (py_pop v k) (\<lambda>_. True)"
  unfolding keeps_def
proof (intro allI impI)
  fix w r w' assume i: "store_keeps S w" and p: "py_pop v k w = (r, w')"
  from py_pop_cases [OF p]
  show "store_keeps S w' \<and> (\<forall>x. r = Inr x \<longrightarrow> True)"
  proof
    assume "w' = w"
    with i show ?thesis by simp
  next
    assume "\<exists>a d. v = PRef a \<and> w' = w\<lparr>store := (store w)[a := d]\<rparr>"
    then obtain a d where v: "v = PRef a" and w': "w' = w\<lparr>store := (store w)[a := d]\<rparr>"
      by blast
    from assms v have "length S \<le> a" by (simp add: fresh_for_def)
    with i w' show ?thesis by (simp add: store_keeps_def)
  qed
qed

lemma keeps_remove_prompt_if_none:
  assumes "fresh_for S prompts"
  shows "keeps (store_keeps S) (remove_prompt_if_none prompts kwargs prompt_type kwarg_key) (\<lambda>_. True)"
proof -
  have "keeps (store_keeps S)
          (\<lambda>w. if py_truthy (store w) p \<and> kw_get kwargs kwarg_key = PNone
                then py_pop prompts prompt_type w else ret () w) (\<lambda>_. True)" for p
    unfolding keeps_def
  proof (intro allI impI)
    fix w r w'
    assume i: "store_keeps S w"
      and e: "(if py_truthy (store w) p \<and> kw_get kwargs kwarg_key = PNone
                then py_pop prompts prompt_type w else ret () w) = (r, w')"
    show "store_keeps S w' \<and> (\<forall>x. r = Inr x \<longrightarrow> True)"
    proof (cases "py_truthy (store w) p \<and> kw_get kwargs kwarg_key = PNone")
      case True
      with e have "py_pop prompts prompt_type w = (r, w')" by simp
      with keeps_py_pop [OF assms, of prompt_type] i show ?thesis
        unfolding keeps_def by blast
    next
      case False
      with e have "w' = w" by (simp add: ret_def)
      with i show ?thesis by simp
    qed
  qed
  then show ?thesis
    unfolding remove_prompt_if_none_def by (rule keeps_bind [OF keeps_lift])
qed

lemma generate_prompt_keeps:
  "keeps (store_keeps S) (generate_prompt E self kwargs) (\<lambda>_. True)"
  unfolding generate_prompt_def
  apply (rule keeps_bind [OF keeps_lift])
  apply (rule keeps_bind [OF keeps_py_copy])
  apply (rule keeps_bind [OF keeps_lift])
  apply (rule keeps_bind [OF keeps_lift])
  apply (rule keeps_bind [OF keeps_lift])
  apply (rule keeps_bind [OF keeps_remove_prompt_if_none], assumption)
  apply (rule keeps_bind [OF keeps_remove_prompt_if_none], assumption)
  apply (rule keeps_bind [OF keeps_lift])
  apply (rule keeps_bind [OF keeps_lift])
  apply (rule keeps_bind [OF keeps_log])
  apply (rule keeps_ret)
  done


lemma generate_prompt_dangling:
  assumes "map_of (agent_data self) ''prompts'' = Some (PRef a)" and "\<not> a < length (store w)"
  shows "generate_prompt E self kwargs w = (Inl AttributeError, w)"
  using assms by (simp add: generate_prompt_def bind_def lift_def py_copy_def deref_def)

text \<open>
  Claim C10. \<^verbatim>\<open>generate_prompt\<close> leaves the stored configuration as it was, whether
  it returns or raises: every object that was in the store before the call is there
  after the call, with the same items, and what is new in the store comes after them; so
  the mapping that \<^verbatim>\<open>agent_data['prompts']\<close> refers to binds the same prompt types to
  the same entries after the call as before. The prompt types the call drops are
  dropped from the copy the call makes.
\<close>

theorem generate_prompt_leaves_prompts:
  "take (length (store w)) (store (snd (generate_prompt E self kwargs w))) = store w
   \<and> as_dict (store (snd (generate_prompt E self kwargs w))) (kw_get (agent_data self) ''prompts'')
       = as_dict (store w) (kw_get (agent_data self) ''prompts'')"
proof -
  obtain r w' where g: "generate_prompt E self kwargs w = (r, w')"
    by (cases "generate_prompt E self kwargs w")
  have "store_keeps (store w) w" by (simp add: store_keeps_def)
  with g generate_prompt_keeps [of "store w" E self kwargs]
  have "store_keeps (store w) w'" unfolding keeps_def by blast
  then have t: "take (length (store w)) (store w') = store w"
    by (simp add: store_keeps_def)
  have "as_dict (store w') pv = as_dict (store w) pv"
    if pv: "pv = kw_get (agent_data self) ''prompts''" for pv
  proof (cases "\<exists>a. pv = PRef a")
    case False
    then show ?thesis by (cases pv) simp_all
  next
    case True
    then obtain a where a: "pv = PRef a" by blast
    show ?thesis
    proof (cases "a < length (store w)")
      case True
      from t have "length (store w) \<le> length (store w')"
        by (metis length_take min.cobounded1)
      moreover from t True have "store w' ! a = store w ! a"
        by (metis nth_take)
      ultimately show ?thesis using a True by (simp add: deref_def)
    next
      case False
      from pv a have "map_of (agent_data self) ''prompts'' = Some (PRef a)"
        by (simp add: kw_get_def split: option.splits)
      from generate_prompt_dangling [OF this False] g have "w' = w" by simp
      then show ?thesis by simp
    qed
  qed
  with t g show ?thesis by simp
qed

lemmas generate_prompt_eval =
  generate_prompt_def bind_def lift_def ret_def py_copy_def deref_def remove_prompt_if_none_def
  py_get_def py_pop_def kw_get_def handle_prompt_type_def render_template_def py_format_def
  field_value_def prepend_def is_digit_def emit_def

theorem generate_prompt_leaves_prompts_witness:
  "take 1 (store (snd (generate_prompt stub_env shared_agent
        [(''name'', PStr ''Ada''), (''task'', PStr ''Write docs'')] shared_world)))
     = store shared_world
   \<and> generate_prompt stub_env shared_agent
        [(''name'', PStr ''Ada''), (''task'', PStr ''Write docs'')] shared_world
     = (Inr [''You are Ada.'', ''Do: Write docs''],
        shared_world\<lparr>events := [Log (''Prompt:'' @ [CHR 0x0A] @ ''<object>'') ''debug''],
          store := store shared_world @
            [[(''SystemPrompt'', PDict [(''template'', PStr ''You are {name}.''),
                                        (''vars'', PList [PStr ''name''])]),
              (''InstructionPrompt'', PDict [(''template'', PStr ''Do: {task}''),
                                             (''vars'', PList [PStr ''task''])])]]\<rparr>)"
proof
  show "take 1 (store (snd (generate_prompt stub_env shared_agent
        [(''name'', PStr ''Ada''), (''task'', PStr ''Write docs'')] shared_world)))
     = store shared_world"
    using generate_prompt_leaves_prompts [of shared_world stub_env shared_agent
        "[(''name'', PStr ''Ada''), (''task'', PStr ''Write docs'')]"]
    by (simp add: shared_world_def)
next
  show "generate_prompt stub_env shared_agent
        [(''name'', PStr ''Ada''), (''task'', PStr ''Write docs'')] shared_world
     = (Inr [''You are Ada.'', ''Do: Write docs''],
        shared_world\<lparr>events := [Log (''Prompt:'' @ [CHR 0x0A] @ ''<object>'') ''debug''],
          store := store shared_world @
            [[(''SystemPrompt'', PDict [(''template'', PStr ''You are {name}.''),
                                        (''vars'', PList [PStr ''name''])]),
              (''InstructionPrompt'', PDict [(''template'', PStr ''Do: {task}''),
                                             (''vars'', PList [PStr ''task''])])]]\<rparr>)"
    by (simp add: generate_prompt_eval shared_world_def shared_agent_def stub_env_def)
qed

section \<open>Prompt generation: which prompts, in which order\<close>

lemma plain_truthy: "plain v \<Longrightarrow> py_truthy st v = py_truthy st' v"
  by (cases v) (simp_all add: plain_def)

lemma plain_getitem: "plain v \<Longrightarrow> py_getitem st v k = py_getitem st' v k"
  by (cases v) (simp_all add: plain_def)

lemma mapE_append:
  assumes "mapE f (xs @ ys) = Inr zs"
  shows "\<exists>as bs. zs = as @ bs \<and> mapE f xs = Inr as \<and> mapE f ys = Inr bs"
  using assms
proof (induction xs arbitrary: zs)
  case Nil
  then show ?case by simp
next
  case (Cons x xs)
  from Cons.prems obtain y ws where y: "f x = Inr y" and ws: "mapE f (xs @ ys) = Inr ws"
    and zs: "zs = y # ws"
    by (auto split: sum.splits)
  from Cons.IH [OF ws] obtain as bs where "ws = as @ bs" "mapE f xs = Inr as" "mapE f ys = Inr bs"
    by blast
  with y zs show ?case by simp
qed

lemma remove_prompt_ref:
  assumes "remove_prompt_if_none (PRef b) kwargs T K w = (Inr u, w')"
    and "deref (store w) b = Some d"
  shows "deref (store w') b =
           Some (if py_truthy (store w) (kw_get d T) \<and> kw_get kwargs K = PNone
                 then AList.delete T d else d)"
proof -
  from assms(2) have b: "b < length (store w)" and d: "store w ! b = d"
    by (auto simp: deref_def split: if_splits)
  show ?thesis
  proof (cases "py_truthy (store w) (kw_get d T) \<and> kw_get kwargs K = PNone")
    case True
    with assms b d show ?thesis
      by (auto simp: remove_prompt_if_none_def bind_def lift_def py_get_def kw_get_def
            py_pop_def deref_def split: if_splits option.splits)
  next
    case False
    with assms b d show ?thesis
      by (auto simp: remove_prompt_if_none_def bind_def lift_def py_get_def kw_get_def
            ret_def deref_def split: if_splits option.splits)
  qed
qed

lemma handle_prompt_ref:
  assumes "handle_prompt_type st (PRef b) T = Inr r"
    and "deref st b = Some d"
    and "mapE (\<lambda>tv. render_template E st (fst tv) (snd tv) kwargs) r = Inr c"
  shows "optional_prompt E st kwargs d T True = Inr c"
  using assms
  by (auto simp: handle_prompt_type_def py_get_def optional_prompt_def render_entry_def
        split: option.splits if_splits sum.splits)


lemma py_copy_dict:
  assumes "py_copy pv w = (Inr p, w1)"
  shows "(\<exists>xs. p = PList xs)
       \<or> (\<exists>d. as_dict (store w) pv = Some d \<and> p = PRef (length (store w))
              \<and> w1 = w\<lparr>store := store w @ [d]\<rparr>)"
  using assms by (cases pv) (auto simp: py_copy_def split: option.splits)

lemma optional_drop_same:
  assumes "\<forall>e. map_of pd T = Some e \<longrightarrow> plain e"
  shows "optional_prompt E st kw
           (if py_truthy st0 (kw_get pd T) \<and> none then AList.delete T pd else pd) T True
         = optional_prompt E st kw pd T (\<not> none)"
proof (cases "map_of pd T")
  case None
  then show ?thesis by (simp add: optional_prompt_def delete_conv')
next
  case (Some e)
  with assms have "plain e" by simp
  then have "py_truthy st0 e = py_truthy st e" by (rule plain_truthy)
  with Some show ?thesis by (simp add: optional_prompt_def delete_conv' kw_get_def)
qed

lemma optional_drop_other:
  assumes "T \<noteq> T'"
  shows "optional_prompt E st kw (if c then AList.delete T' pd else pd) T s
         = optional_prompt E st kw pd T s"
  using assms by (simp add: optional_prompt_def delete_conv')

text \<open>
  Claim C3. Whenever \<^verbatim>\<open>generate_prompt\<close> returns, its list starts with the
  rendering of the persona's \<^verbatim>\<open>SystemPrompt\<close>, whatever the keyword arguments are,
  and continues with the contributions of \<^verbatim>\<open>ContextPrompt\<close>, \<^verbatim>\<open>FeedbackPrompt\<close>
  and \<^verbatim>\<open>InstructionPrompt\<close>, in this order. The contribution of
  \<^verbatim>\<open>ContextPrompt\<close> is empty when \<^verbatim>\<open>context\<close> is absent or \<^verbatim>\<open>None\<close>, even if the
  persona defines the prompt, and that of \<^verbatim>\<open>FeedbackPrompt\<close> is empty when
  \<^verbatim>\<open>feedback\<close> is absent or \<^verbatim>\<open>None\<close>. The persona's prompts are a mapping
  \<open>pd\<close> whose entries are plain values.
\<close>

theorem generate_prompt_order:
  assumes gen: "generate_prompt E self kwargs w = (Inr out, w')"
    and pd: "as_dict (store w) (kw_get (agent_data self) ''prompts'') = Some pd"
    and pl: "\<forall>T e. map_of pd T = Some e \<longrightarrow> plain e"
  shows "\<exists>sys ctx fb ins.
           out = sys # ctx @ fb @ ins
         \<and> (\<exists>e. map_of pd ''SystemPrompt'' = Some e \<and> render_entry E (store w') kwargs e = Inr sys)
         \<and> optional_prompt E (store w') kwargs pd ''ContextPrompt''
              (kw_get kwargs ''context'' \<noteq> PNone) = Inr ctx
         \<and> optional_prompt E (store w') kwargs pd ''FeedbackPrompt''
              (kw_get kwargs ''feedback'' \<noteq> PNone) = Inr fb
         \<and> optional_prompt E (store w') kwargs pd ''InstructionPrompt'' True = Inr ins
         \<and> (kw_get kwargs ''context'' = PNone \<longrightarrow> ctx = [])
         \<and> (kw_get kwargs ''feedback'' = PNone \<longrightarrow> fb = [])"
proof -
  let ?render = "\<lambda>st tv. render_template E st (fst tv) (snd tv) kwargs"
  from gen obtain pv prompts system_prompt t v w1 w2 w3 rest where
    g1: "dict_getitem (agent_data self) (PStr ''prompts'') = Inr pv" and
    g2: "py_copy pv w = (Inr prompts, w1)" and
    g3: "py_getitem (store w1) prompts (PStr ''SystemPrompt'') = Inr system_prompt" and
    g4: "py_getitem (store w1) system_prompt (PStr ''template'') = Inr t" and
    g5: "py_getitem (store w1) system_prompt (PStr ''vars'') = Inr v" and
    g6: "remove_prompt_if_none prompts kwargs ''ContextPrompt'' ''context'' w1 = (Inr (), w2)" and
    g7: "remove_prompt_if_none prompts kwargs ''FeedbackPrompt'' ''feedback'' w2 = (Inr (), w3)" and
    g8: "handle_all (store w3) prompts [''ContextPrompt'', ''FeedbackPrompt'', ''InstructionPrompt'']
           = Inr rest" and
    g9: "mapE (?render (store w3)) ((t, v) # rest) = Inr out" and
    g10: "store w' = store w3"
    unfolding generate_prompt_def
    by (auto elim!: bind_Inr_elim simp: lift_def ret_eq emit_def)
  from g1 have pv: "kw_get (agent_data self) ''prompts'' = pv"
    by (simp add: kw_get_def split: option.splits)
  let ?b = "length (store w)"
  from py_copy_dict [OF g2] g3 pd pv
  have p: "prompts = PRef ?b" and w1: "store w1 = store w @ [pd]"
    by auto
  from w1 have d1: "deref (store w1) ?b = Some pd" by (simp add: deref_def)
  from g3 p d1 have sp: "map_of pd ''SystemPrompt'' = Some system_prompt"
    by (simp split: option.splits)
  with pl have psp: "plain system_prompt" by blast
  let ?d2 = "if py_truthy (store w1) (kw_get pd ''ContextPrompt'') \<and> kw_get kwargs ''context'' = PNone
             then AList.delete ''ContextPrompt'' pd else pd"
  let ?d3 = "if py_truthy (store w2) (kw_get ?d2 ''FeedbackPrompt'') \<and> kw_get kwargs ''feedback'' = PNone
             then AList.delete ''FeedbackPrompt'' ?d2 else ?d2"
  from remove_prompt_ref [OF g6 [unfolded p] d1] have d2: "deref (store w2) ?b = Some ?d2" .
  from remove_prompt_ref [OF g7 [unfolded p] d2] have d3: "deref (store w3) ?b = Some ?d3" .
  from g8 obtain r1 r2 r3 where
    h1: "handle_prompt_type (store w3) (PRef ?b) ''ContextPrompt'' = Inr r1" and
    h2: "handle_prompt_type (store w3) (PRef ?b) ''FeedbackPrompt'' = Inr r2" and
    h3: "handle_prompt_type (store w3) (PRef ?b) ''InstructionPrompt'' = Inr r3" and
    rest: "rest = r1 @ r2 @ r3"
    unfolding p by (auto split: sum.splits)
  from g9 obtain sys tl where sys: "render_template E (store w3) t v kwargs = Inr sys"
    and tl: "mapE (?render (store w3)) rest = Inr tl" and out: "out = sys # tl"
    by (auto split: sum.splits)
  from mapE_append [OF tl [unfolded rest]] obtain ctx tl2 where
    c: "mapE (?render (store w3)) r1 = Inr ctx" and
    tl2: "mapE (?render (store w3)) (r2 @ r3) = Inr tl2" and tl_eq: "tl = ctx @ tl2"
    by blast
  from mapE_append [OF tl2] obtain fb ins where
    f: "mapE (?render (store w3)) r2 = Inr fb" and
    i: "mapE (?render (store w3)) r3 = Inr ins" and tl2_eq: "tl2 = fb @ ins"
    by blast
  have plc: "\<forall>e. map_of pd ''ContextPrompt'' = Some e \<longrightarrow> plain e"
    using pl by blast
  have plf: "\<forall>e. map_of ?d2 ''FeedbackPrompt'' = Some e \<longrightarrow> plain e"
    using pl by (simp add: delete_conv')
  have "optional_prompt E (store w3) kwargs ?d3 ''ContextPrompt'' True
          = optional_prompt E (store w3) kwargs ?d2 ''ContextPrompt'' True"
    by (rule optional_drop_other) simp
  also have "\<dots> = optional_prompt E (store w3) kwargs pd ''ContextPrompt''
                     (kw_get kwargs ''context'' \<noteq> PNone)"
    by (rule optional_drop_same [OF plc])
  finally have oc: "optional_prompt E (store w3) kwargs pd ''ContextPrompt''
                     (kw_get kwargs ''context'' \<noteq> PNone) = Inr ctx"
    using handle_prompt_ref [OF h1 d3 c] by simp
  have "optional_prompt E (store w3) kwargs ?d3 ''FeedbackPrompt'' True
          = optional_prompt E (store w3) kwargs ?d2 ''FeedbackPrompt''
              (kw_get kwargs ''feedback'' \<noteq> PNone)"
    by (rule optional_drop_same [OF plf])
  also have "\<dots> = optional_prompt E (store w3) kwargs pd ''FeedbackPrompt''
                     (kw_get kwargs ''feedback'' \<noteq> PNone)"
    by (rule optional_drop_other) simp
  finally have "of": "optional_prompt E (store w3) kwargs pd ''FeedbackPrompt''
                     (kw_get kwargs ''feedback'' \<noteq> PNone) = Inr fb"
    using handle_prompt_ref [OF h2 d3 f] by simp
  have "optional_prompt E (store w3) kwargs ?d3 ''InstructionPrompt'' True
          = optional_prompt E (store w3) kwargs ?d2 ''InstructionPrompt'' True"
    by (rule optional_drop_other) simp
  also have "\<dots> = optional_prompt E (store w3) kwargs pd ''InstructionPrompt'' True"
    by (rule optional_drop_other) simp
  finally have oi: "optional_prompt E (store w3) kwargs pd ''InstructionPrompt'' True = Inr ins"
    using handle_prompt_ref [OF h3 d3 i] by simp
  have rs: "render_entry E (store w3) kwargs system_prompt = Inr sys"
    using g4 g5 sys plain_getitem [OF psp, of "store w3" _ "store w1"]
    by (simp add: render_entry_def)
  from oc have nc: "kw_get kwargs ''context'' = PNone \<longrightarrow> ctx = []"
    by (auto simp: optional_prompt_def split: option.splits)
  from "of" have nf: "kw_get kwargs ''feedback'' = PNone \<longrightarrow> fb = []"
    by (auto simp: optional_prompt_def split: option.splits)
  from out tl_eq tl2_eq have "out = sys # ctx @ fb @ ins" by simp
  with sp rs oc "of" oi nc nf show ?thesis
    unfolding g10 by blast
qed


theorem generate_prompt_order_witness:
  "generate_prompt stub_env stub_agent
      [(''name'', PStr ''Ada''), (''task'', PStr ''Write docs''), (''context'', PNone)] empty_world
     = (Inr [''You are Ada.'', ''Do: Write docs''],
        \<lparr>events = [Log (''Prompt:'' @ [CHR 0x0A] @ ''<object>'') ''debug''],
         store = [[(''SystemPrompt'', PDict [(''template'', PStr ''You are {name}.''),
                                             (''vars'', PList [PStr ''name''])]),
                   (''InstructionPrompt'', PDict [(''template'', PStr ''Do: {task}''),
                                                  (''vars'', PList [PStr ''task''])])]],
         uuid_count = 0\<rparr>)
   \<and> (\<exists>sys ins. [''You are Ada.'', ''Do: Write docs''] = sys # [] @ [] @ ins)"
proof -
  let ?K = "[(''name'', PStr ''Ada''), (''task'', PStr ''Write docs''), (''context'', PNone)]"
  let ?pd = "[(''SystemPrompt'', PDict [(''template'', PStr ''You are {name}.''),
                                       (''vars'', PList [PStr ''name''])]),
             (''ContextPrompt'', PDict [(''template'', PStr ''Context: {context}''),
                                        (''vars'', PList [PStr ''context''])]),
             (''InstructionPrompt'', PDict [(''template'', PStr ''Do: {task}''),
                                            (''vars'', PList [PStr ''task''])])]"
  let ?W = "\<lparr>events = [Log (''Prompt:'' @ [CHR 0x0A] @ ''<object>'') ''debug''],
         store = [[(''SystemPrompt'', PDict [(''template'', PStr ''You are {name}.''),
                                             (''vars'', PList [PStr ''name''])]),
                   (''InstructionPrompt'', PDict [(''template'', PStr ''Do: {task}''),
                                                  (''vars'', PList [PStr ''task''])])]],
         uuid_count = 0\<rparr>"
  have run: "generate_prompt stub_env stub_agent ?K empty_world
               = (Inr [''You are Ada.'', ''Do: Write docs''], ?W)"
    by (simp add: generate_prompt_eval stub_agent_def stub_env_def empty_world_def)
  have pd: "as_dict (store empty_world) (kw_get (agent_data stub_agent) ''prompts'') = Some ?pd"
    by (simp add: stub_agent_def kw_get_def)
  have pl: "\<forall>T e. map_of ?pd T = Some e \<longrightarrow> plain e"
    by (auto simp: plain_def split: if_splits)
  from generate_prompt_order [OF run pd pl] obtain sys ctx fb ins where
    "[''You are Ada.'', ''Do: Write docs''] = sys # ctx @ fb @ ins"
    and "kw_get ?K ''context'' = PNone \<longrightarrow> ctx = []"
    and "kw_get ?K ''feedback'' = PNone \<longrightarrow> fb = []"
    by blast
  then have "\<exists>sys ins. [''You are Ada.'', ''Do: Write docs''] = sys # [] @ [] @ ins"
    by (simp add: kw_get_def)
  with run show ?thesis by simp
qed

section \<open>Rendering a template\<close>

lemma prepend_Nil [simp]: "prepend [] r = r"
  by (cases r) (simp_all add: prepend_def)


lemma prepend_Inr [simp]: "prepend a (Inr b) = Inr (a @ b)"
  by (simp add: prepend_def)

lemma prepend_Inl [simp]: "prepend a (Inl e) = Inl e"
  by (simp add: prepend_def)













section \<open>Persistence: the order of the branches\<close>

lemma key_present: "k \<in> fst ` set d \<longleftrightarrow> map_of d k \<noteq> None"
  by (simp add: map_of_eq_None_iff)

lemma save_results_run:
  assumes "\<forall>h ev. storage_write E h ev = None"
  shows "save_results E self r w = (Inr (), w\<lparr>events := events w @ results_events r\<rparr>)"
  using assms by (simp add: save_results_def storage_call_def results_events_def)

lemma save_status_run:
  assumes "\<forall>h ev. storage_write E h ev = None"
  shows "save_status E self s (task_field task ''task_id'') (task_field task ''description'')
           (task_field task ''order'') w
         = (Inr (), w\<lparr>events := events w @ status_events E w s task\<rparr>)"
  using assms
  by (simp add: save_status_def storage_call_def status_events_def bind_def emit_def)

lemma task_object_getitem:
  assumes "task_object task" and "k = ''task_id'' \<or> k = ''description'' \<or> k = ''order''"
  shows "py_getitem st task (PStr k) = Inr (task_field task k)"
proof -
  from assms(1) obtain t where t: "task = PDict t"
    and "''task_id'' \<in> fst ` set t" "''description'' \<in> fst ` set t" "''order'' \<in> fst ` set t"
    by (auto simp: task_object_def split: pyval.splits)
  with assms(2) have "k \<in> fst ` set t" by auto
  then obtain v where "map_of t k = Some v"
    by (metis map_of_eq_None_iff not_Some_eq)
  with t show ?thesis by (simp add: task_field_def kw_get_def)
qed

lemma loop_result:
  assumes "\<forall>h ev. storage_write E h ev = None"
  shows "save_loop ((''result'', save_results E self, (\<lambda>st data. Inr data)) # rest) (PDict d) out w
         = save_loop rest (PDict d) (if ''result'' \<in> set (map fst d) then PDict d else out)
             (w\<lparr>events := events w @
                 (case map_of d ''result'' of None \<Rightarrow> [] | Some r \<Rightarrow> results_events r)\<rparr>)"
proof (cases "map_of d ''result''")
  case None
  then have "''result'' \<notin> set (map fst d)" by (simp add: key_present)
  with None show ?thesis by (simp add: bind_def lift_def)
next
  case (Some r)
  then have "''result'' \<in> set (map fst d)" by (simp add: key_present)
  with Some show ?thesis
    by (simp add: bind_def lift_def save_results_run [OF assms])
qed

lemma loop_tasks:
  assumes writes: "\<forall>h ev. storage_write E h ev = None" and ok: "branch_inputs d"
  shows "save_loop ((''Tasks'',
            (\<lambda>tasks.
               bind (lift (\<lambda>st. case py_iter st tasks of
                                   Inl e \<Rightarrow> Inl e
                                 | Inr ts \<Rightarrow> mapE (\<lambda>task. py_getitem st task (PStr ''Description'')) ts)) (\<lambda>descs.
               save_tasks E self tasks (PList descs))),
            (\<lambda>st data. py_getitem st data (PStr ''Tasks''))) # rest) (PDict d) out w
         = save_loop rest (PDict d)
             (if ''Tasks'' \<in> set (map fst d) then kw_get d ''Tasks'' else out)
             (w\<lparr>events := events w @
                 (case map_of d ''Tasks'' of
                    None \<Rightarrow> []
                  | Some ts \<Rightarrow> tasks_events E w (task_list d)
                      (PList (map (\<lambda>t. task_field t ''Description'') (task_list d)))),
                uuid_count := uuid_count w + length (task_list d)\<rparr>)"
proof (cases "map_of d ''Tasks''")
  case None
  then have "''Tasks'' \<notin> set (map fst d)" by (simp add: key_present)
  with None show ?thesis by (simp add: bind_def lift_def task_list_def)
next
  case (Some ts)
  then have k: "''Tasks'' \<in> set (map fst d)" by (simp add: key_present)
  from ok Some obtain tasks where ts: "ts = PList tasks" and recs: "list_all task_record tasks"
    by (auto simp: branch_inputs_def split: pyval.splits)
  from Some ts have tl: "task_list d = tasks" by (simp add: task_list_def)
  have descs: "\<And>st. mapE (\<lambda>task. py_getitem st task (PStr ''Description'')) tasks
           = Inr (map (\<lambda>t. task_field t ''Description'') tasks)"
    using mapE_orders [OF recs, of _ "''Description''"] by simp
  show ?thesis
    using Some k ts tl
    by (simp add: bind_def lift_def descs save_tasks_run [OF recs writes] kw_get_def
          tasks_events_def)
qed

lemma loop_status:
  assumes writes: "\<forall>h ev. storage_write E h ev = None" and ok: "branch_inputs d"
  shows "save_loop ((''status'',
            (\<lambda>status.
               bind (lift (\<lambda>st. case py_getitem st (PDict d) (PStr ''task'') of
                                   Inl e \<Rightarrow> Inl e | Inr t \<Rightarrow> py_getitem st t (PStr ''task_id''))) (\<lambda>task_id.
               bind (lift (\<lambda>st. case py_getitem st (PDict d) (PStr ''task'') of
                                   Inl e \<Rightarrow> Inl e | Inr t \<Rightarrow> py_getitem st t (PStr ''description''))) (\<lambda>description.
               bind (lift (\<lambda>st. case py_getitem st (PDict d) (PStr ''task'') of
                                   Inl e \<Rightarrow> Inl e | Inr t \<Rightarrow> py_getitem st t (PStr ''order''))) (\<lambda>order.
               save_status E self status task_id description order)))),
            (\<lambda>st data. Inr data)) # rest) (PDict d) out w
         = save_loop rest (PDict d) (if ''status'' \<in> set (map fst d) then PDict d else out)
             (w\<lparr>events := events w @
                 (case map_of d ''status'' of
                    None \<Rightarrow> []
                  | Some s \<Rightarrow> status_events E w s (kw_get d ''task''))\<rparr>)"
proof (cases "map_of d ''status''")
  case None
  then have "''status'' \<notin> set (map fst d)" by (simp add: key_present)
  with None show ?thesis by (simp add: bind_def lift_def)
next
  case (Some s)
  then have k: "''status'' \<in> set (map fst d)" by (simp add: key_present)
  from ok Some obtain task where t: "map_of d ''task'' = Some task" and o: "task_object task"
    by (auto simp: branch_inputs_def split: option.splits)
  show ?thesis
    using Some k t
    by (simp add: bind_def lift_def task_object_getitem [OF o] save_status_run [OF writes]
          kw_get_def)
qed

lemma tasks_events_world [simp]:
  "tasks_events E (w\<lparr>events := x\<rparr>) = tasks_events E w"
  by (simp add: tasks_events_def fun_eq_iff)

lemma status_events_world [simp]:
  "status_events E (w\<lparr>events := x\<rparr>) = status_events E w"
  "status_events E (w\<lparr>uuid_count := n\<rparr>) = status_events E w"
  by (simp_all add: status_events_def fun_eq_iff)

text \<open>
  Claim C1, amended. \<^verbatim>\<open>save_parsed_data\<close> looks at the keys \<^verbatim>\<open>result\<close>,
  \<^verbatim>\<open>Tasks\<close> and \<^verbatim>\<open>status\<close> in this order. For every parsed-data mapping on which
  the matching branches can run (the value under \<^verbatim>\<open>Tasks\<close> is a list of task records,
  and \<^verbatim>\<open>status\<close> comes with a \<^verbatim>\<open>task\<close> sub-object that has \<^verbatim>\<open>task_id\<close>,
  \<^verbatim>\<open>description\<close> and \<^verbatim>\<open>order\<close>), on a storage that accepts the writes, the
  persistence routine of each matching branch is invoked, in that order, and the output
  is the selection of the last matching key: the whole mapping for \<^verbatim>\<open>result\<close> and
  for \<^verbatim>\<open>status\<close>, the value under \<^verbatim>\<open>Tasks\<close> for \<^verbatim>\<open>Tasks\<close>; the outputs of
  earlier branches are overwritten.
\<close>

theorem save_parsed_data_last_branch:
  assumes writes: "\<forall>h ev. storage_write E h ev = None" and ok: "branch_inputs d"
  shows "save_parsed_data E self (PDict d) w =
           (Inr (selected_output d),
            w\<lparr>events := events w @ persistence_events E w d,
               uuid_count := uuid_count w + length (task_list d)\<rparr>)"
  unfolding save_parsed_data_def save_operations_def
  by (simp only: loop_result [OF writes] loop_tasks [OF writes ok] loop_status [OF writes ok]
        save_loop.simps(1))
     (simp add: ret_def selected_output_def persistence_events_def cong: option.case_cong)


theorem save_parsed_data_last_branch_witness:
  "save_parsed_data stub_env stub_agent
      (PDict [(''result'', PStr ''x''),
              (''Tasks'', PList [PDict [(''Description'', PStr ''A''), (''Order'', PInt 1)],
                                 PDict [(''Description'', PStr ''B''), (''Order'', PInt 2)]])])
      empty_world =
     (Inr (PList [PDict [(''Description'', PStr ''A''), (''Order'', PInt 1)],
                  PDict [(''Description'', PStr ''B''), (''Order'', PInt 2)]]),
      \<lparr>events =
         [SaveMemory (PDict [(''data'', PList [PStr ''x'']), (''collection_name'', PStr ''Results'')]),
          ClearCollection (PStr ''Tasks''),
          SaveMemory (PDict
            [(''collection_name'', PStr ''Tasks''),
             (''ids'', PList [PStr ''1'', PStr ''2'']),
             (''data'', PList [PStr ''A'', PStr ''B'']),
             (''metadata'', PList
                [PDict [(''Status'', PStr ''not completed''), (''Description'', PStr ''A''),
                        (''List_ID'', PStr ''id-''), (''Order'', PInt 1)],
                 PDict [(''Status'', PStr ''not completed''), (''Description'', PStr ''B''),
                        (''List_ID'', PStr ''id-x''), (''Order'', PInt 2)]])])],
       store = [], uuid_count = 2\<rparr>)"
proof -
  have u: "[0 ..< 2] = [0, Suc 0]" by (simp add: upt_rec)
  show ?thesis
    using u save_parsed_data_last_branch [of stub_env
        "[(''result'', PStr ''x''),
          (''Tasks'', PList [PDict [(''Description'', PStr ''A''), (''Order'', PInt 1)],
                             PDict [(''Description'', PStr ''B''), (''Order'', PInt 2)]])]"
        stub_agent empty_world]
    by (simp add: branch_inputs_def task_record_def stub_env_def empty_world_def
          selected_output_def persistence_events_def results_events_def tasks_events_def
          task_list_def expected_metadata_def task_field_def kw_get_def int_str_def
          nat_str.simps digit_char_def)
qed

text \<open>
  Claim C1 as stated fails: a mapping with the keys \<^verbatim>\<open>result\<close> and \<^verbatim>\<open>status\<close> and
  no \<^verbatim>\<open>task\<close> sub-object makes \<^verbatim>\<open>save_parsed_data\<close> raise in the \<^verbatim>\<open>status\<close>
  branch, after the result was saved: no output is returned, and the storage is not
  asked to update a task.
\<close>

theorem save_parsed_data_status_without_task_counterexample:
  "save_parsed_data stub_env stub_agent
      (PDict [(''result'', PStr ''x''), (''status'', PStr ''done'')]) empty_world =
     (Inl (KeyError (PStr ''task'')),
      \<lparr>events =
         [SaveMemory (PDict [(''data'', PList [PStr ''x'']), (''collection_name'', PStr ''Results'')])],
       store = [], uuid_count = 0\<rparr>)"
  by (simp add: save_parsed_data_def save_operations_def bind_def lift_def save_results_def
        storage_call_def stub_env_def empty_world_def)

end
